theory Spec2Isabelle
  imports Complex_Main "HOL-Library.Sublist" "HOL-Library.Char_ord" "HOL-Library.List_Lexorder"
begin

text \<open>
  The notebook \<^verbatim>\<open>examples/entailment/entailment_xnli_bert_azureml.ipynb\<close>: it provisions
  a compute cluster, stages the library code, writes the training script \<^verbatim>\<open>train.py\<close>,
  submits a distributed run, waits for it, and prints the downloaded results as a table.
  The first part of the theory embeds the provisioning, staging and report cells and
  the script; the second part states and proves their properties.
\<close>

section \<open>The remote platform as the notebook sees it\<close>

text \<open>
  The notebook reaches the platform through SDK calls. The platform is a state: the
  compute targets of the workspace by name, and the log of the state-changing or
  blocking SDK calls the provisioning cell has made, in order. What the SDK and the
  service decide on their own is a parameter of the model (\<open>sdk\<close>): which cluster
  configurations they accept, and what provisioning state the service reports at each
  poll after a create request.
\<close>

record cluster =
  vm_size :: string
  min_nodes :: int
  max_nodes :: int

datatype provisioning_state = Creating | Succeeded | Failed

fun terminal :: "provisioning_state \<Rightarrow> bool" where
  "terminal Creating = False"
| "terminal Succeeded = True"
| "terminal Failed = True"

datatype sdk_call =
    CreateCall string cluster    \<comment> \<open>\<^verbatim>\<open>ComputeTarget.create(ws, name, config)\<close>\<close>
  | WaitCompute string           \<comment> \<open>\<^verbatim>\<open>compute_target.wait_for_completion(..)\<close>\<close>

record platform =
  clusters :: "string \<Rightarrow> cluster option"
  calls :: "sdk_call list"

record sdk =
  valid_config :: "cluster \<Rightarrow> bool"     \<comment> \<open>\<^verbatim>\<open>provisioning_configuration\<close> returns rather than raises\<close>
  service_accepts :: "cluster \<Rightarrow> bool"  \<comment> \<open>the service takes the create request\<close>
  polls :: "nat \<Rightarrow> provisioning_state" \<comment> \<open>the state reported at each poll after a create\<close>

datatype sdk_error = ComputeTargetException

section \<open>Compute provisioner\<close>

text \<open>
  \<^verbatim>\<open>try:\<close>
  \<^verbatim>\<open>    compute_target = ComputeTarget(workspace=ws, name=cluster_name)\<close>
  \<^verbatim>\<open>except ComputeTargetException:\<close>
  \<^verbatim>\<open>    compute_config = AmlCompute.provisioning_configuration(\<close>
  \<^verbatim>\<open>        vm_size="STANDARD_NC6", max_nodes=NODE_COUNT)\<close>
  \<^verbatim>\<open>    compute_target = ComputeTarget.create(ws, cluster_name, compute_config)\<close>
  \<^verbatim>\<open>    compute_target.wait_for_completion(show_output=True)\<close>
\<close>

text \<open>\<^verbatim>\<open>ComputeTarget(workspace=ws, name=..)\<close> raises when the workspace has no such target.\<close>

definition ComputeTarget :: "platform \<Rightarrow> string \<Rightarrow> sdk_error + cluster" where
  "ComputeTarget ws name =
     (case clusters ws name of None \<Rightarrow> Inl ComputeTargetException | Some c \<Rightarrow> Inr c)"

text \<open>
  \<^verbatim>\<open>AmlCompute.provisioning_configuration\<close>: the cell passes the VM size and the maximum;
  the minimum is the SDK's default, 0 (the notebook's text: the cluster autoscales from 0
  to 4 nodes).
\<close>

definition provisioning_configuration :: "sdk \<Rightarrow> string \<Rightarrow> int \<Rightarrow> sdk_error + cluster" where
  "provisioning_configuration k vm max_n =
     (let config = \<lparr>vm_size = vm, min_nodes = 0, max_nodes = max_n\<rparr>
      in if valid_config k config then Inr config else Inl ComputeTargetException)"

definition create :: "sdk \<Rightarrow> platform \<Rightarrow> string \<Rightarrow> cluster \<Rightarrow> platform \<times> (sdk_error + cluster)" where
  "create k ws name config =
     (let ws1 = ws\<lparr>calls := calls ws @ [CreateCall name config]\<rparr>
      in if service_accepts k config
         then (ws1\<lparr>clusters := (clusters ws1)(name \<mapsto> config)\<rparr>, Inr config)
         else (ws1, Inl ComputeTargetException))"

text \<open>
  Modelled from the spec: \<^verbatim>\<open>wait_for_completion\<close> is the SDK's; the spec has it block
  until a terminal state is reached, polling at a fixed interval. The loop returns the
  number of the poll that reported a terminal state, with that state; when no poll ever
  does, it does not return.
\<close>

partial_function (option) poll_until ::
    "('s \<Rightarrow> bool) \<Rightarrow> (nat \<Rightarrow> 's) \<Rightarrow> nat \<Rightarrow> (nat \<times> 's) option" where
  "poll_until final p i = (if final (p i) then Some (i, p i) else poll_until final p (Suc i))"

record compute_handle =
  name :: string
  config :: cluster
  waited :: "(nat \<times> provisioning_state) option"  \<comment> \<open>set when the cell waited for provisioning\<close>

text \<open>
  The cell. The result is \<open>None\<close> when the cell does not return; otherwise the platform
  state it leaves and either the exception that ended it or the compute target. No
  statement of the cell is inside a \<^verbatim>\<open>try\<close> of its own once the lookup has missed, so
  an exception of a later SDK call ends the cell.

  Modelled from the spec: a wait that ends in the terminal state \<open>Failed\<close> fails (the
  spec's provisioning error, the SDK's \<^verbatim>\<open>ComputeTargetException\<close>); it returns normally
  only for \<open>Succeeded\<close>.
\<close>

definition provision ::
    "sdk \<Rightarrow> int \<Rightarrow> string \<Rightarrow> platform \<Rightarrow> (platform \<times> (sdk_error + compute_handle)) option" where
  "provision k NODE_COUNT cluster_name ws =
     (case ComputeTarget ws cluster_name of
        Inr c \<Rightarrow> Some (ws, Inr \<lparr>name = cluster_name, config = c, waited = None\<rparr>)
      | Inl ComputeTargetException \<Rightarrow>
          (case provisioning_configuration k ''STANDARD_NC6'' NODE_COUNT of
             Inl e \<Rightarrow> Some (ws, Inl e)
           | Inr compute_config \<Rightarrow>
               (case create k ws cluster_name compute_config of
                  (ws1, Inl e) \<Rightarrow> Some (ws1, Inl e)
                | (ws1, Inr c) \<Rightarrow>
                    (case poll_until terminal (polls k) 0 of
                       None \<Rightarrow> None
                     | Some w \<Rightarrow>
                         (let ws2 = ws1\<lparr>calls := calls ws1 @ [WaitCompute cluster_name]\<rparr>
                          in if snd w = Succeeded
                             then Some (ws2, Inr \<lparr>name = cluster_name, config = c,
                                                 waited = Some w\<rparr>)
                             else Some (ws2, Inl ComputeTargetException))))))"

text \<open>
  Examples. What the SDK accepts is not the notebook's to decide, so the examples take
  three SDKs: one that refuses a maximum below 1, one that only refuses bounds that are
  out of order (and so accepts a maximum of 0), each with a service that reports
  \<open>Creating\<close> twice and then \<open>Succeeded\<close>, and one whose service reports \<open>Failed\<close> at
  the second poll. The workspaces are one that has the cluster of the notebook's recorded
  output, and an empty one.
\<close>

definition strict_sdk :: sdk where
  "strict_sdk =
     \<lparr>valid_config = (\<lambda>c. 0 \<le> min_nodes c \<and> min_nodes c \<le> max_nodes c \<and> 0 < max_nodes c),
      service_accepts = (\<lambda>c. True),
      polls = (\<lambda>n. if n < 2 then Creating else Succeeded)\<rparr>"

definition ordered_sdk :: sdk where
  "ordered_sdk =
     \<lparr>valid_config = (\<lambda>c. 0 \<le> min_nodes c \<and> min_nodes c \<le> max_nodes c),
      service_accepts = (\<lambda>c. True),
      polls = (\<lambda>n. if n < 2 then Creating else Succeeded)\<rparr>"

definition failing_sdk :: sdk where
  "failing_sdk =
     \<lparr>valid_config = (\<lambda>c. True),
      service_accepts = (\<lambda>c. True),
      polls = (\<lambda>n. if n < 1 then Creating else Failed)\<rparr>"

definition existing_ws :: platform where
  "existing_ws =
     \<lparr>clusters = [''gpu-entail'' \<mapsto> \<lparr>vm_size = ''STANDARD_NC6S_V2'', min_nodes = 0, max_nodes = 4\<rparr>],
      calls = []\<rparr>"

definition empty_ws :: platform where
  "empty_ws = \<lparr>clusters = Map.empty, calls = []\<rparr>"

section \<open>Job packager: the staging directory\<close>

text \<open>
  \<^verbatim>\<open>project_dir = "./entail_utils"\<close>
  \<^verbatim>\<open>if DEBUG and os.path.exists(project_dir):\<close>
  \<^verbatim>\<open>    shutil.rmtree(project_dir)\<close>
  \<^verbatim>\<open>shutil.copytree("../../utils_nlp", os.path.join(project_dir, "utils_nlp"))\<close>

  The file system is a map from paths to nodes. A path is its list of components below
  the notebook's directory, which is the empty path; the library tree
  \<^verbatim>\<open>../../utils_nlp\<close> lies outside that directory and keeps its \<^verbatim>\<open>..\<close> components as
  names, so it is disjoint from everything below \<^verbatim>\<open>./entail_utils\<close>. Symbolic links,
  permissions and file metadata are not modelled.
\<close>

type_synonym path = "string list"

datatype node = Dir | File string

type_synonym fs = "path \<Rightarrow> node option"

datatype os_error = FileNotFoundError | NotADirectoryError | FileExistsError

definition exists_path :: "fs \<Rightarrow> path \<Rightarrow> bool" where
  "exists_path fs p = (fs p \<noteq> None)"

definition is_file :: "fs \<Rightarrow> path \<Rightarrow> bool" where
  "is_file fs p = (case fs p of Some (File c) \<Rightarrow> True | _ \<Rightarrow> False)"

text \<open>
  \<^verbatim>\<open>shutil.rmtree(p)\<close> removes the directory \<open>p\<close> and everything below it; it raises when
  \<open>p\<close> is missing or is not a directory.
\<close>

definition rmtree :: "fs \<Rightarrow> path \<Rightarrow> os_error + fs" where
  "rmtree fs p =
     (case fs p of
        None \<Rightarrow> Inl FileNotFoundError
      | Some (File c) \<Rightarrow> Inl NotADirectoryError
      | Some Dir \<Rightarrow> Inr (\<lambda>q. if prefix p q then None else fs q))"

text \<open>
  \<^verbatim>\<open>shutil.copytree(src, dst)\<close> of Python 3.7: it lists \<open>src\<close> (which raises unless \<open>src\<close>
  is a directory), then \<^verbatim>\<open>os.makedirs(dst)\<close>, which raises \<^verbatim>\<open>FileExistsError\<close> when \<open>dst\<close>
  exists and creates the missing directories above it, then copies every entry of
  \<open>src\<close> to the same place below \<open>dst\<close>.
\<close>

definition copytree :: "fs \<Rightarrow> path \<Rightarrow> path \<Rightarrow> os_error + fs" where
  "copytree fs src dst =
     (case fs src of
        None \<Rightarrow> Inl FileNotFoundError
      | Some (File c) \<Rightarrow> Inl NotADirectoryError
      | Some Dir \<Rightarrow>
          if exists_path fs dst then Inl FileExistsError
          else if list_ex (is_file fs) (butlast (prefixes dst)) then Inl NotADirectoryError
          else Inr (\<lambda>q. if prefix dst q then fs (src @ drop (length dst) q)
                        else if prefix q dst then Some Dir
                        else fs q))"

text \<open>A file system is a tree: whatever exists, apart from the root, lies in a directory.\<close>

definition tree_fs :: "fs \<Rightarrow> bool" where
  "tree_fs fs = (\<forall>p. p \<noteq> [] \<longrightarrow> fs p \<noteq> None \<longrightarrow> fs (butlast p) = Some Dir)"

definition project_dir :: path where
  "project_dir = [''entail_utils'']"

definition utils_nlp_src :: path where
  "utils_nlp_src = [''..'', ''..'', ''utils_nlp'']"

definition utils_nlp_dst :: path where
  "utils_nlp_dst = project_dir @ [''utils_nlp'']"  \<comment> \<open>\<^verbatim>\<open>os.path.join(project_dir, ..)\<close>\<close>

text \<open>The cell; \<open>DEBUG\<close> is a parameter of the notebook (its parameters cell sets it to True).\<close>

definition packager :: "bool \<Rightarrow> fs \<Rightarrow> os_error + fs" where
  "packager DEBUG fs =
     (case (if DEBUG \<and> exists_path fs project_dir then rmtree fs project_dir else Inr fs) of
        Inl e \<Rightarrow> Inl e
      | Inr fs1 \<Rightarrow> copytree fs1 utils_nlp_src utils_nlp_dst)"

text \<open>
  What the staging directory holds when it is exactly one copy of the library tree of
  \<open>fs0\<close>: the directory itself, the copy below \<^verbatim>\<open>utils_nlp\<close>, and nothing else.
\<close>

definition staged_copy :: "fs \<Rightarrow> path \<Rightarrow> node option" where
  "staged_copy fs0 q =
     (if q = project_dir then Some Dir
      else if prefix utils_nlp_dst q then fs0 (utils_nlp_src @ drop (length utils_nlp_dst) q)
      else None)"

text \<open>
  An example: a library tree with one module, and a staging directory left by an earlier
  session that holds a stale file and no \<^verbatim>\<open>utils_nlp\<close>.
\<close>

definition example_fs :: fs where
  "example_fs = map_of
     [([], Dir),
      ([''..''], Dir),
      ([''..'', ''..''], Dir),
      ([''..'', ''..'', ''utils_nlp''], Dir),
      ([''..'', ''..'', ''utils_nlp'', ''timer.py''], File ''class Timer''),
      ([''entail_utils''], Dir),
      ([''entail_utils'', ''stale.py''], File ''old'')]"

section \<open>The training script: per-worker cache directory\<close>

text \<open>
  \<^verbatim>\<open>CACHE_DIR = "./xnli-%d" % hvd.rank()\<close>

  Python's \<^verbatim>\<open>%d\<close> writes an integer in decimal, most significant digit first, with a
  leading minus sign for a negative value. Python integers are unbounded, so the rank
  is an \<^typ>\<open>int\<close>.
\<close>

definition digit_char :: "nat \<Rightarrow> char" where
  "digit_char d = ''0123456789'' ! d"

function digits10 :: "nat \<Rightarrow> string" where
  "digits10 n = (if n < 10 then [digit_char n] else digits10 (n div 10) @ [digit_char (n mod 10)])"
  by pat_completeness auto
termination
  by (relation "measure id") auto

declare digits10.simps [simp del]

definition format_d :: "int \<Rightarrow> string" where
  "format_d i = (if i < 0 then CHR ''-'' # digits10 (nat (- i)) else digits10 (nat i))"

definition CACHE_DIR :: "int \<Rightarrow> string" where
  "CACHE_DIR rank = ''./xnli-'' @ format_d rank"

text \<open>Reading a decimal numeral back, used only to state that \<open>digits10\<close> loses nothing.\<close>

definition digit_val :: "char \<Rightarrow> nat" where
  "digit_val c = of_char c - 48"

definition dec_value :: "string \<Rightarrow> nat" where
  "dec_value s = foldl (\<lambda>a c. 10 * a + digit_val c) 0 s"

section \<open>The training script: command-line surface\<close>

text \<open>
  \<^verbatim>\<open>parser = argparse.ArgumentParser()\<close> followed by four \<^verbatim>\<open>add_argument\<close> calls and
  \<^verbatim>\<open>args = parser.parse_args()\<close>. The parser is the standard library's (read here as of
  CPython 3.11); what is modelled of it is what decides the parsed values: how a
  command-line word is classified (an option string, an abbreviation of one, an option
  with \<^verbatim>\<open>=value\<close>, or an argument), how an option takes its value, and when parsing ends
  with \<^verbatim>\<open>SystemExit\<close> instead of returning. The conversions \<^verbatim>\<open>int\<close> and \<^verbatim>\<open>float\<close> are
  Python builtins and are parameters of the model; a conversion that raises
  \<^verbatim>\<open>ValueError\<close> returns \<open>None\<close>.
\<close>

datatype pyfloat = Finite rat | PosInf | NegInf | NaN

record namespace =
  seed :: int
  epochs :: int
  no_cuda :: bool
  data_percent_used :: pyfloat

record conv =
  py_int :: "string \<Rightarrow> int option"
  py_float :: "string \<Rightarrow> pyfloat option"

datatype dest = Seed | Epochs | No_cuda | Data_percent_used

datatype action =
    HelpAction       \<comment> \<open>added by \<^verbatim>\<open>ArgumentParser()\<close> itself, \<^verbatim>\<open>add_help=True\<close>\<close>
  | Store dest       \<comment> \<open>the default action: one argument, converted by \<^verbatim>\<open>type\<close>\<close>
  | StoreTrue dest   \<comment> \<open>\<^verbatim>\<open>action=store_true\<close>: no argument\<close>

text \<open>
  \<^verbatim>\<open>parser.exit\<close> after \<^verbatim>\<open>-h\<close>/\<^verbatim>\<open>--help\<close> (status 0) and \<^verbatim>\<open>parser.error\<close> after a usage
  error (status 2) both raise \<^verbatim>\<open>SystemExit\<close>. The status is not kept: the script has no
  parsed values in either case.
\<close>

datatype exit = SystemExit

text \<open>The option strings in the order they are registered.\<close>

definition option_string_actions :: "(string \<times> action) list" where
  "option_string_actions =
     [(''-h'', HelpAction), (''--help'', HelpAction),
      (''--seed'', Store Seed),
      (''--epochs'', Store Epochs),
      (''--no-cuda'', StoreTrue No_cuda),
      (''--data_percent_used'', Store Data_percent_used)]"

text \<open>The namespace before any option is seen: the \<^verbatim>\<open>default=\<close> of each argument.\<close>

definition defaults :: namespace where
  "defaults = \<lparr>seed = 42, epochs = 2, no_cuda = False, data_percent_used = Finite 1\<rparr>"

text \<open>\<^verbatim>\<open>arg_string.split('=', 1)\<close>, for a string that contains \<^verbatim>\<open>=\<close>.\<close>

definition split_eq :: "string \<Rightarrow> (string \<times> string) option" where
  "split_eq s =
     (if CHR ''='' \<in> set s
      then Some (takeWhile (\<lambda>c. c \<noteq> CHR ''='') s, tl (dropWhile (\<lambda>c. c \<noteq> CHR ''='') s))
      else None)"

text \<open>
  \<^verbatim>\<open>_negative_number_matcher\<close> is \<^verbatim>\<open>'^-\d+$|^-\d*\.\d+$'\<close>; \<^verbatim>\<open>$\<close> also matches before a
  final newline.
\<close>

definition is_digit :: "char \<Rightarrow> bool" where
  "is_digit c = (c \<in> set ''0123456789'')"

definition negative_number :: "string \<Rightarrow> bool" where
  "negative_number s =
     (case s of
        [] \<Rightarrow> False
      | c # r0 \<Rightarrow>
          (let r = (if r0 \<noteq> [] \<and> last r0 = CHR 0x0A then butlast r0 else r0);
               a = takeWhile is_digit r;
               b = dropWhile is_digit r
           in c = CHR ''-'' \<and>
              ((a \<noteq> [] \<and> b = []) \<or>
               (b \<noteq> [] \<and> hd b = CHR ''.'' \<and> tl b \<noteq> [] \<and> list_all is_digit (tl b)))))"

text \<open>
  \<^verbatim>\<open>_get_option_tuples\<close>, called for a string of at least two characters that starts
  with \<^verbatim>\<open>-\<close>: the registered option strings that the string abbreviates, each with the
  matched option string and the explicit argument.
\<close>

definition get_option_tuples :: "string \<Rightarrow> (action \<times> string \<times> string option) list" where
  "get_option_tuples s =
     (if s ! 1 = CHR ''-''
      then (let (option_prefix, explicit_arg) =
                  (case split_eq s of Some (p, e) \<Rightarrow> (p, Some e) | None \<Rightarrow> (s, None))
            in map (\<lambda>(os, a). (a, os, explicit_arg))
                 (filter (\<lambda>(os, a). prefix option_prefix os) option_string_actions))
      else concat (map (\<lambda>(os, a).
                     if os = take 2 s then [(a, os, Some (drop 2 s))]
                     else if prefix s os then [(a, os, None)]
                     else [])
                   option_string_actions))"

text \<open>
  \<^verbatim>\<open>_parse_optional\<close>: a word is an argument (\<open>Arg\<close>, pattern letter \<^verbatim>\<open>A\<close>), an option
  (\<open>Opt\<close>, pattern letter \<^verbatim>\<open>O\<close>; \<open>None\<close> when it looks like an option and no such option
  is registered), or an ambiguous abbreviation, which is a usage error.
\<close>

datatype kind = Arg | Opt "(action \<times> string \<times> string option) option" | Ambiguous

definition parse_optional :: "string \<Rightarrow> kind" where
  "parse_optional s =
     (if s = [] then Arg
      else if hd s \<noteq> CHR ''-'' then Arg
      else case map_of option_string_actions s of
        Some a \<Rightarrow> Opt (Some (a, s, None))
      | None \<Rightarrow>
          if length s = 1 then Arg
          else case (case split_eq s of
                       Some (p, e) \<Rightarrow>
                         (case map_of option_string_actions p of
                            Some a \<Rightarrow> Some (a, p, Some e)
                          | None \<Rightarrow> None)
                     | None \<Rightarrow> None) of
            Some t \<Rightarrow> Opt (Some t)
          | None \<Rightarrow>
              (case get_option_tuples s of
                 [t] \<Rightarrow> Opt (Some t)
               | _ # _ # _ \<Rightarrow> Ambiguous
               | [] \<Rightarrow>
                   if negative_number s then Arg
                   else if CHR '' '' \<in> set s then Arg
                   else Opt None))"

text \<open>\<^verbatim>\<open>_get_value\<close> and \<^verbatim>\<open>setattr(namespace, dest, value)\<close> of the store action.\<close>

fun store :: "conv \<Rightarrow> dest \<Rightarrow> string \<Rightarrow> namespace \<Rightarrow> namespace option" where
  "store cv Seed v ns = map_option (\<lambda>i. ns\<lparr>seed := i\<rparr>) (py_int cv v)"
| "store cv Epochs v ns = map_option (\<lambda>i. ns\<lparr>epochs := i\<rparr>) (py_int cv v)"
| "store cv Data_percent_used v ns =
     map_option (\<lambda>x. ns\<lparr>data_percent_used := x\<rparr>) (py_float cv v)"
| "store cv No_cuda v ns = None"

fun store_true :: "dest \<Rightarrow> namespace \<Rightarrow> namespace" where
  "store_true No_cuda ns = ns\<lparr>no_cuda := True\<rparr>"
| "store_true d ns = ns"

text \<open>
  The second pass of \<^verbatim>\<open>_parse_known_args\<close>, left to right. An option with
  \<^verbatim>\<open>action=store_true\<close> takes no word. An option with the default action takes its
  explicit argument (\<^verbatim>\<open>--seed=7\<close>) or else the next word, which must be an argument:
  \<^verbatim>\<open>_get_nargs_pattern\<close> gives an option the pattern \<^verbatim>\<open>(A)\<close>, with no place for \<^verbatim>\<open>--\<close>, so
  the word \<^verbatim>\<open>--\<close> is never taken by an option. The parser has no positional argument, so
  a word that no option takes is left over, \<^verbatim>\<open>--\<close> included, as is an option string that
  the parser does not know; \<^verbatim>\<open>parse_args\<close> ends with \<^verbatim>\<open>parser.error\<close> when a word is
  left over, unless an action has ended it before. The help action ends it with
  \<^verbatim>\<open>parser.exit\<close>, an explicit argument that the action cannot take and a failed
  conversion end it with \<^verbatim>\<open>parser.error\<close>.
\<close>

fun consume :: "conv \<Rightarrow> string list \<Rightarrow> namespace \<Rightarrow> exit + namespace" where
  "consume cv [] ns = Inr ns"
| "consume cv (t # ts) ns =
     (if t = ''--'' then Inl SystemExit
      else case parse_optional t of
        Arg \<Rightarrow> Inl SystemExit
      | Ambiguous \<Rightarrow> Inl SystemExit
      | Opt None \<Rightarrow> Inl SystemExit
      | Opt (Some (HelpAction, os, e)) \<Rightarrow> Inl SystemExit
      | Opt (Some (StoreTrue d, os, Some e)) \<Rightarrow> Inl SystemExit
      | Opt (Some (StoreTrue d, os, None)) \<Rightarrow> consume cv ts (store_true d ns)
      | Opt (Some (Store d, os, Some e)) \<Rightarrow>
          (case store cv d e ns of
             None \<Rightarrow> Inl SystemExit
           | Some ns' \<Rightarrow> consume cv ts ns')
      | Opt (Some (Store d, os, None)) \<Rightarrow>
          (case ts of
             [] \<Rightarrow> Inl SystemExit
           | v # rest \<Rightarrow>
               if v \<noteq> ''--'' \<and> parse_optional v = Arg then
                 (case store cv d v ns of
                    None \<Rightarrow> Inl SystemExit
                  | Some ns' \<Rightarrow> consume cv rest ns')
               else Inl SystemExit))"

text \<open>
  \<^verbatim>\<open>parse_args\<close>. The first pass of \<^verbatim>\<open>_parse_known_args\<close> classifies the words and
  ends with \<^verbatim>\<open>parser.error\<close> on an ambiguous abbreviation; the second pass ends the same
  way when it reaches that word, if it has not ended before.
\<close>

definition parse_args :: "conv \<Rightarrow> string list \<Rightarrow> exit + namespace" where
  "parse_args cv argv = consume cv argv defaults"



text \<open>
  A word is in order when it is an argument or an option string of a registered flag
  (not \<^verbatim>\<open>-h\<close>/\<^verbatim>\<open>--help\<close>, not an option the parser does not have).
\<close>

fun flag_or_argument :: "kind \<Rightarrow> bool" where
  "flag_or_argument Arg = True"
| "flag_or_argument (Opt (Some (Store d, os, e))) = True"
| "flag_or_argument (Opt (Some (StoreTrue d, os, e))) = True"
| "flag_or_argument k = False"




section \<open>The training script: module body of train.py\<close>

text \<open>
  The cell \<^verbatim>\<open>%%writefile $project_dir/train.py\<close> writes the script to a file of its own;
  it runs on the workers as a separate program, so the only global names it has are the
  ones its own statements bind (and Python's builtins). The script is modelled as its
  list of module-level statements, in source order. Each statement records the global
  names it evaluates (in evaluation order), the names it binds, and the externally
  visible effects of the library calls it makes. Evaluating a name that is not bound
  raises \<^verbatim>\<open>NameError\<close> and ends the program, as in Python; the effects of the
  statement do not happen then, because every name a statement here evaluates is
  evaluated before its call is made.
\<close>

datatype event =
    HvdInit
  | LoadDataset string string  \<comment> \<open>\<^verbatim>\<open>XnliDataset(file_split=.., cache_dir=..)\<close>\<close>
  | Fit int                    \<comment> \<open>\<^verbatim>\<open>classifier.fit(.., epoch=..)\<close>\<close>
  | Predict                    \<comment> \<open>\<^verbatim>\<open>classifier.predict(test_loader, NUM_GPUS)\<close>\<close>
  | ClassificationReport       \<comment> \<open>\<^verbatim>\<open>classification_report(.., output_dict=True)\<close>\<close>
  | OpenFile string            \<comment> \<open>\<^verbatim>\<open>open(result_file, ..)\<close>: creates or truncates the file\<close>
  | JsonDump                   \<comment> \<open>\<^verbatim>\<open>json.dump(results, fp)\<close>\<close>
  | SaveModel                  \<comment> \<open>\<^verbatim>\<open>classifier.save_model()\<close>\<close>

datatype exn = NameError string

record stmt =
  reads :: "string list"
  binds :: "string list"
  effects :: "event list"

definition stmt :: "string list \<Rightarrow> string list \<Rightarrow> event list \<Rightarrow> stmt" where
  "stmt rs bs es = \<lparr>reads = rs, binds = bs, effects = es\<rparr>"

text \<open>The builtins the script uses; \<^verbatim>\<open>os\<close> and \<^verbatim>\<open>json\<close> are modules, not builtins.\<close>

definition builtins :: "string list" where
  "builtins = [''print'', ''len'', ''int'', ''float'', ''range'', ''open'']"

fun run_stmts :: "string list \<Rightarrow> stmt list \<Rightarrow> event list \<times> exn option" where
  "run_stmts env [] = ([], None)"
| "run_stmts env (s # ss) =
     (case find (\<lambda>n. n \<notin> set env) (reads s) of
        Some n \<Rightarrow> ([], Some (NameError n))
      | None \<Rightarrow> (let (evs, r) = run_stmts (binds s @ env) ss in (effects s @ evs, r)))"

text \<open>Lines 226 to 256 of the notebook: imports, \<^verbatim>\<open>hvd.init()\<close> and the constants.\<close>

definition train_imports :: "stmt list" where
  "train_imports =
    [stmt [] [''hvd''] [],                      \<comment> \<open>\<^verbatim>\<open>import horovod.torch as hvd\<close>\<close>
     stmt [] [''torch''] [],                    \<comment> \<open>\<^verbatim>\<open>import torch\<close>\<close>
     stmt [] [''np''] [],                       \<comment> \<open>\<^verbatim>\<open>import numpy as np\<close>\<close>
     stmt [] [''time''] [],                     \<comment> \<open>\<^verbatim>\<open>import time\<close>\<close>
     stmt [] [''argparse''] [],                 \<comment> \<open>\<^verbatim>\<open>import argparse\<close>\<close>
     stmt [] [''Timer''] [],
     stmt [] [''XnliDataset''] [],
     stmt [] [''Language''] [],
     stmt [] [''BERTSequenceClassifier''] [],
     stmt [] [''classification_report''] []]"

definition train_constants :: "stmt list" where
  "train_constants =
    [stmt [''print'', ''torch''] [] [],         \<comment> \<open>\<^verbatim>\<open>print(.., torch.__version__)\<close>\<close>
     stmt [''hvd''] [] [HvdInit],               \<comment> \<open>\<^verbatim>\<open>hvd.init()\<close>\<close>
     stmt [] [''LANGUAGE_ENGLISH''] [],
     stmt [] [''TRAIN_FILE_SPLIT''] [],
     stmt [] [''TEST_FILE_SPLIT''] [],
     stmt [] [''TO_LOWERCASE''] [],
     stmt [''Language''] [''PRETRAINED_BERT_LNG''] [],
     stmt [] [''LEARNING_RATE''] [],
     stmt [] [''WARMUP_PROPORTION''] [],
     stmt [] [''BATCH_SIZE''] [],
     stmt [] [''NUM_GPUS''] [],
     stmt [] [''OUTPUT_DIR''] [],
     stmt [] [''LABELS''] [],
     stmt [''hvd''] [''CACHE_DIR''] []]"

text \<open>Lines 258 to 289: the argument parser, the CUDA set-up and \<^verbatim>\<open>kwargs\<close>.\<close>

definition train_arguments :: "bool \<Rightarrow> stmt list" where
  "train_arguments cuda =
    [stmt [''argparse''] [''parser''] [],
     stmt [''parser'', ''int''] [] [],          \<comment> \<open>\<^verbatim>\<open>--seed\<close>\<close>
     stmt [''parser'', ''int''] [] [],          \<comment> \<open>\<^verbatim>\<open>--epochs\<close>\<close>
     stmt [''parser''] [] [],                   \<comment> \<open>\<^verbatim>\<open>--no-cuda\<close>\<close>
     stmt [''parser'', ''float''] [] [],        \<comment> \<open>\<^verbatim>\<open>--data_percent_used\<close>\<close>
     stmt [''parser''] [''args''] [],           \<comment> \<open>\<^verbatim>\<open>args = parser.parse_args()\<close>\<close>
     stmt [''args'', ''torch''] [] [],          \<comment> \<open>\<^verbatim>\<open>args.cuda = ...\<close>\<close>
     stmt [''args''] [] []]                     \<comment> \<open>\<^verbatim>\<open>if args.cuda:\<close>\<close>
    @ (if cuda
       then [stmt [''torch'', ''hvd''] [] [],   \<comment> \<open>\<^verbatim>\<open>torch.cuda.set_device(hvd.local_rank())\<close>\<close>
             stmt [''torch'', ''args''] [] []]  \<comment> \<open>\<^verbatim>\<open>torch.cuda.manual_seed(args.seed)\<close>\<close>
       else [])
    @ [stmt (if cuda then [''args'', ''NUM_GPUS''] else [''args'']) [''kwargs''] []]"

text \<open>Lines 291 to 324: the training data, the classifier, the loader and the optimizer.\<close>

definition train_setup :: "string \<Rightarrow> stmt list" where
  "train_setup cache_dir =
    [stmt [''XnliDataset'', ''TRAIN_FILE_SPLIT'', ''CACHE_DIR'', ''LANGUAGE_ENGLISH'',
           ''TO_LOWERCASE'', ''PRETRAINED_BERT_LNG'', ''args'']
          [''train_dataset''] [LoadDataset ''train'' cache_dir],
     stmt [''train_dataset''] [''label_encoder''] [],
     stmt [''len'', ''np'', ''train_dataset''] [''num_labels''] [],
     stmt [''BERTSequenceClassifier'', ''Language'', ''num_labels'', ''CACHE_DIR'']
          [''classifier''] [],
     stmt [''classifier'', ''train_dataset'', ''BATCH_SIZE'', ''kwargs''] [''train_loader''] [],
     stmt [''len'', ''train_loader''] [''num_samples''] [],
     stmt [''int'', ''num_samples'', ''BATCH_SIZE''] [''num_batches''] [],
     stmt [''num_batches'', ''args''] [''num_train_optimization_steps''] [],
     stmt [''classifier'', ''num_train_optimization_steps'', ''LEARNING_RATE'',
           ''WARMUP_PROPORTION''] [''optimizer''] []]"

text \<open>
  Lines 326 to 339: \<^verbatim>\<open>for epoch in range(1, args.epochs + 1)\<close>, two statements for each
  epoch; \<open>[1..n_epochs]\<close> is empty when \<open>n_epochs < 1\<close>, as the range is.
\<close>

definition train_epoch :: "int \<Rightarrow> stmt list" where
  "train_epoch epoch =
    [stmt [''train_loader''] [''epoch''] [],    \<comment> \<open>\<^verbatim>\<open>train_loader.sampler.set_epoch(epoch)\<close>\<close>
     stmt [''classifier'', ''train_loader'', ''epoch'', ''args'', ''optimizer'', ''NUM_GPUS'']
          [] [Fit epoch]]"

definition train_loop :: "int \<Rightarrow> stmt list" where
  "train_loop n_epochs =
     stmt [''Timer''] [''t''] [] # stmt [''range'', ''args''] [] []
       # concat (map train_epoch [1..n_epochs])"

text \<open>Lines 342 to 370: the block under \<^verbatim>\<open>if hvd.rank() == 0:\<close>.\<close>

definition result_file :: string where
  "result_file = ''./outputs/results.json''"  \<comment> \<open>\<^verbatim>\<open>os.path.join(OUTPUT_DIR, ..)\<close>\<close>

definition train_evaluate :: "string \<Rightarrow> stmt list" where
  "train_evaluate cache_dir =
    [stmt [] [''NUM_GPUS''] [],
     stmt [''XnliDataset'', ''TEST_FILE_SPLIT'', ''CACHE_DIR'', ''LANGUAGE_ENGLISH'',
           ''TO_LOWERCASE'', ''PRETRAINED_BERT_LNG'']
          [''test_dataset''] [LoadDataset ''test'' cache_dir],
     stmt [''classifier'', ''test_dataset''] [''test_loader''] [],
     stmt [''classifier'', ''test_loader'', ''NUM_GPUS''] [''predictions'', ''pred_labels'']
          [Predict],
     stmt [''label_encoder'', ''predictions''] [''predictions''] [],
     stmt [''classification_report'', ''pred_labels'', ''predictions'', ''LABELS'']
          [''results''] [ClassificationReport],
     stmt [''os'', ''OUTPUT_DIR''] [''result_file''] [],
     stmt [''open'', ''result_file''] [''fp''] [OpenFile result_file],
     stmt [''json'', ''results'', ''fp''] [] [JsonDump],
     stmt [''classifier''] [] [SaveModel]]"

definition train_prelude :: "bool \<Rightarrow> string \<Rightarrow> stmt list" where
  "train_prelude cuda c = train_imports @ train_constants @ train_arguments cuda @ train_setup c"

definition train_py :: "int \<Rightarrow> bool \<Rightarrow> int \<Rightarrow> stmt list" where
  "train_py rank cuda n_epochs =
     train_prelude cuda (CACHE_DIR rank) @ train_loop n_epochs
       @ stmt [''hvd''] [] [] # (if rank = 0 then train_evaluate (CACHE_DIR rank) else [])"

definition run_worker :: "int \<Rightarrow> bool \<Rightarrow> int \<Rightarrow> event list \<times> exn option" where
  "run_worker rank cuda n_epochs = run_stmts builtins (train_py rank cuda n_epochs)"



text \<open>
  Auxiliary notions for the proofs: a statement list is well scoped when every name it
  evaluates is bound by then; the names bound after the statements before the training
  loop, and after the loop.
\<close>

fun scoped :: "string list \<Rightarrow> stmt list \<Rightarrow> bool" where
  "scoped env [] = True"
| "scoped env (s # ss) = (list_all (\<lambda>n. n \<in> set env) (reads s) \<and> scoped (binds s @ env) ss)"

definition prelude_env :: "bool \<Rightarrow> string \<Rightarrow> string list" where
  "prelude_env cuda c = concat (rev (map binds (train_prelude cuda c))) @ builtins"

definition loop_env :: "bool \<Rightarrow> string \<Rightarrow> int \<Rightarrow> string list" where
  "loop_env cuda c n_epochs = concat (rev (map binds (train_loop n_epochs))) @ prelude_env cuda c"

section \<open>Report formatter\<close>

text \<open>
  \<^verbatim>\<open>with open("outputs/results.json", "r") as handle:\<close>
  \<^verbatim>\<open>    parsed = json.load(handle)\<close>
  \<^verbatim>\<open>    print(pd.DataFrame.from_dict(parsed).transpose())\<close>

  The cell reads a file, parses it as JSON, builds a data frame with one column for each
  key of the document, and prints its transpose. A Python dict is modelled as the list of
  its items in insertion order, with distinct keys. The documents modelled are the JSON
  objects whose values are objects (class label to record); the values inside a record
  are arbitrary JSON. A JSON number is the rational it denotes: the cell does no
  arithmetic. What is modelled of the printed table is its row labels, its column
  labels and its cells, in order; number formatting is not.
\<close>

datatype json =
    JNull | JBool bool | JNum rat | JStr string | JArr "json list" | JObj "(string \<times> json) list"

type_synonym results = "(string \<times> (string \<times> json) list) list"

datatype results_file = Missing | NotJson | Parsed results

datatype report_error = OSError os_error | JSONDecodeError

datatype cell = NaN | Value json

record dataframe =
  index :: "string list"
  columns :: "string list"
  data :: "cell list list"   \<comment> \<open>one list of cells for each row, in column order\<close>

definition keys :: "('k \<times> 'v) list \<Rightarrow> 'k list" where
  "keys d = map fst d"

text \<open>
  The notebook imports pandas and pins no version of it. Two things that pandas decides
  are parameters of the model. The first is the order in which the union of the keys of
  the records labels the rows of the frame that \<^verbatim>\<open>from_dict\<close> builds, the columns of the
  printed table (\<open>union_indexes\<close>, after the pandas function that computes it). The
  second is what pandas stores in a cell for a value of a record (\<open>cast\<close>): it chooses a
  type for the values that stand together, so a value can be stored as another one (an
  integer as a float, \<^verbatim>\<open>null\<close> as NaN), depending on the values around it; the cast is
  given the document, the label of the record, the key and the value.
\<close>

record pandas =
  union_indexes :: "string list list \<Rightarrow> string list"
  cast :: "results \<Rightarrow> string \<Rightarrow> string \<Rightarrow> json \<Rightarrow> cell"

text \<open>
  A cell of a data frame built from dicts: NaN when the record has no value at the key,
  otherwise what pandas stores for the value.
\<close>

definition dict_get ::
    "pandas \<Rightarrow> results \<Rightarrow> string \<Rightarrow> (string \<times> json) list \<Rightarrow> string \<Rightarrow> cell" where
  "dict_get pd parsed label d k =
     (case map_of d k of None \<Rightarrow> NaN | Some v \<Rightarrow> cast pd parsed label k v)"

definition from_dict :: "pandas \<Rightarrow> results \<Rightarrow> dataframe" where
  "from_dict pd parsed =
     (let idx = union_indexes pd (map (\<lambda>(label, record). keys record) parsed)
      in \<lparr>index = idx,
          columns = keys parsed,
          data = map (\<lambda>k. map (\<lambda>(label, record). dict_get pd parsed label record k) parsed)
                   idx\<rparr>)"

definition transpose_df :: "dataframe \<Rightarrow> dataframe" where
  "transpose_df df =
     \<lparr>index = columns df,
      columns = index df,
      data = map (\<lambda>j. map (\<lambda>row. row ! j) (data df)) [0..<length (columns df)]\<rparr>"

definition report_cell :: "pandas \<Rightarrow> results_file \<Rightarrow> report_error + dataframe" where
  "report_cell pd f =
     (case f of
        Missing \<Rightarrow> Inl (OSError FileNotFoundError)
      | NotJson \<Rightarrow> Inl JSONDecodeError
      | Parsed parsed \<Rightarrow> Inr (transpose_df (from_dict pd parsed)))"

text \<open>\<^verbatim>\<open>df.loc[label, key]\<close>: the cell in the row and the column of the given labels.\<close>

fun position :: "'a \<Rightarrow> 'a list \<Rightarrow> nat" where
  "position x [] = 0"
| "position x (y # ys) = (if x = y then 0 else Suc (position x ys))"

definition loc :: "dataframe \<Rightarrow> string \<Rightarrow> string \<Rightarrow> cell" where
  "loc df label key = data df ! position label (index df) ! position key (columns df)"

text \<open>
  Two orders of the union of the keys. In the notebook's recorded output the records,
  written with the keys in the order precision, recall, f1-score, support, are printed
  with the columns f1-score, precision, recall, support: the union is sorted (strings
  ordered as Python orders them, lexicographically by character code). A pandas that
  keeps the insertion order of dicts lists each key where it is first seen.
\<close>

definition sorted_union :: "string list list \<Rightarrow> string list" where
  "sorted_union ks = sort (remdups (concat ks))"

definition first_seen :: "string list list \<Rightarrow> string list" where
  "first_seen ks = fold (\<lambda>k seen. if k \<in> set seen then seen else seen @ [k]) (concat ks) []"

text \<open>
  The two pandas of the examples. Their cast stores every value as it is: the values of
  the examples are strings and numbers, which pandas stores as that string and that
  number.
\<close>

definition as_it_is :: "results \<Rightarrow> string \<Rightarrow> string \<Rightarrow> json \<Rightarrow> cell" where
  "as_it_is parsed label key v = Value v"

definition pandas_sorting :: pandas where
  "pandas_sorting = \<lparr>union_indexes = sorted_union, cast = as_it_is\<rparr>"

definition pandas_ordered :: pandas where
  "pandas_ordered = \<lparr>union_indexes = first_seen, cast = as_it_is\<rparr>"

text \<open>A dict of dicts: keys are distinct at both levels.\<close>

definition dict_of_dicts :: "results \<Rightarrow> bool" where
  "dict_of_dicts parsed =
     (distinct (keys parsed) \<and> list_all (\<lambda>(label, record). distinct (keys record)) parsed)"

text \<open>
  A well-formed results document: every record has exactly the four required keys, with
  numbers as values, and the three average rows are present.
\<close>

definition required_keys :: "string list" where
  "required_keys = [''precision'', ''recall'', ''f1-score'', ''support'']"

fun is_number :: "json \<Rightarrow> bool" where
  "is_number (JNum x) = True"
| "is_number v = False"

definition well_formed :: "results \<Rightarrow> bool" where
  "well_formed parsed =
     (dict_of_dicts parsed
      \<and> list_all (\<lambda>l. l \<in> set (keys parsed)) [''micro avg'', ''macro avg'', ''weighted avg'']
      \<and> list_all (\<lambda>(label, record).
            set (keys record) = set required_keys \<and> list_all (\<lambda>(k, v). is_number v) record)
          parsed)"

text \<open>
  The example of the spec, the same document with the keys of each record written in
  another order, and a document with a missing key and a value that is no number.
\<close>

definition metrics :: "rat \<Rightarrow> rat \<Rightarrow> rat \<Rightarrow> rat \<Rightarrow> (string \<times> json) list" where
  "metrics p r f s =
     [(''precision'', JNum p), (''recall'', JNum r), (''f1-score'', JNum f), (''support'', JNum s)]"

definition example_results :: results where
  "example_results =
     [(''entailment'', metrics (87 / 100) (76 / 100) (82 / 100) 1670),
      (''micro avg'', metrics (81 / 100) (81 / 100) (81 / 100) 5010),
      (''macro avg'', metrics (82 / 100) (81 / 100) (81 / 100) 5010),
      (''weighted avg'', metrics (82 / 100) (81 / 100) (81 / 100) 5010)]"

definition malformed_results :: results where
  "malformed_results =
     [(''entailment'', [(''precision'', JNum (87 / 100)), (''f1-score'', JNum (82 / 100)),
                        (''support'', JStr ''many'')]),
      (''micro avg'', metrics (81 / 100) (81 / 100) (81 / 100) 5010)]"

definition metrics_reordered :: "rat \<Rightarrow> rat \<Rightarrow> rat \<Rightarrow> rat \<Rightarrow> (string \<times> json) list" where
  "metrics_reordered p r f s =
     [(''f1-score'', JNum f), (''precision'', JNum p), (''recall'', JNum r), (''support'', JNum s)]"

definition reordered_results :: results where
  "reordered_results =
     [(''entailment'', metrics_reordered (87 / 100) (76 / 100) (82 / 100) 1670),
      (''micro avg'', metrics_reordered (81 / 100) (81 / 100) (81 / 100) 5010),
      (''macro avg'', metrics_reordered (82 / 100) (81 / 100) (81 / 100) 5010),
      (''weighted avg'', metrics_reordered (82 / 100) (81 / 100) (81 / 100) 5010)]"

section \<open>Properties of the compute provisioner\<close>

lemma poll_until_sound:
  assumes "poll_until final p i = Some r"
  shows "i \<le> fst r \<and> snd r = p (fst r) \<and> final (p (fst r))
         \<and> (\<forall>j. i \<le> j \<and> j < fst r \<longrightarrow> \<not> final (p j))"
  using assms
proof (induction final p i r rule: poll_until.raw_induct [rotated 1, consumes 1])
  case (1 f final p i r)
  show ?case
  proof (cases "final (p i)")
    case True
    with 1(2) show ?thesis by auto
  next
    case False
    with 1(2) have "f final p (Suc i) = Some r" by simp
    from 1(1) [OF this] False show ?thesis
      by (auto simp: Suc_le_eq dest: le_neq_implies_less)
  qed
qed

lemma poll_until_complete:
  "final (p (i + d)) \<Longrightarrow> \<exists>r. poll_until final p i = Some r"
proof (induction d arbitrary: i)
  case 0
  then show ?case by (subst poll_until.simps) simp
next
  case (Suc d)
  from Suc.prems have "final (p (Suc i + d))" by simp
  from Suc.IH [OF this] show ?case
    by (subst poll_until.simps) auto
qed

lemma provision_hit:
  "clusters ws cluster_name = Some c \<Longrightarrow>
     provision k n cluster_name ws
       = Some (ws, Inr \<lparr>name = cluster_name, config = c, waited = None\<rparr>)"
  by (simp add: provision_def ComputeTarget_def)

lemma poll_until_first:
  assumes m: "final (p m)" and first: "\<forall>j<m. \<not> final (p j)"
  shows "poll_until final p 0 = Some (m, p m)"
proof -
  from m have "final (p (0 + m))" by simp
  then obtain r where r: "poll_until final p 0 = Some r"
    using poll_until_complete [of final p 0 m] by blast
  from poll_until_sound [OF r] have s: "snd r = p (fst r)" "final (p (fst r))"
    "\<forall>j. j < fst r \<longrightarrow> \<not> final (p j)"
    by auto
  from s(3) m have "\<not> m < fst r" by blast
  moreover from first s(2) have "\<not> fst r < m" by blast
  ultimately have "fst r = m" by simp
  with s(1) r show ?thesis by (cases r) simp
qed

text \<open>On a miss, the four ways the cell can go.\<close>

lemma provision_miss:
  fixes n :: int and cluster_name :: string and ws :: platform
  assumes miss: "clusters ws cluster_name = None"
  defines "cfg \<equiv> \<lparr>vm_size = ''STANDARD_NC6'', min_nodes = 0, max_nodes = n\<rparr>"
  defines "ws1 \<equiv> ws\<lparr>calls := calls ws @ [CreateCall cluster_name cfg]\<rparr>"
  defines "ws2 \<equiv> ws\<lparr>clusters := (clusters ws)(cluster_name \<mapsto> cfg),
                     calls := calls ws @ [CreateCall cluster_name cfg, WaitCompute cluster_name]\<rparr>"
  shows "provision k n cluster_name ws =
     (if \<not> valid_config k cfg then Some (ws, Inl ComputeTargetException)
      else if \<not> service_accepts k cfg then Some (ws1, Inl ComputeTargetException)
      else case poll_until terminal (polls k) 0 of
             None \<Rightarrow> None
           | Some w \<Rightarrow>
               if snd w = Succeeded
               then Some (ws2, Inr \<lparr>name = cluster_name, config = cfg, waited = Some w\<rparr>)
               else Some (ws2, Inl ComputeTargetException))"
  using miss
  by (simp add: provision_def ComputeTarget_def provisioning_configuration_def create_def
      cfg_def ws1_def ws2_def Let_def split: option.splits)

text \<open>
  Claim C5. Get-or-create: when the cluster name resolves to an existing cluster, the
  provisioner returns that cluster's handle and leaves the platform as it was (no create
  request, the cluster's VM size and bounds unchanged). A create request is issued only
  on a lookup miss, with autoscale bounds 0 and the maximum node count; after it the
  provisioner returns only from the wait, at the first poll that reports a terminal
  provisioning state, and it does return when some poll does.
\<close>

theorem provision_get_or_create:
  "(clusters ws cluster_name = Some c \<longrightarrow>
      provision k n cluster_name ws
        = Some (ws, Inr \<lparr>name = cluster_name, config = c, waited = None\<rparr>))
   \<and> (provision k n cluster_name ws = Some (ws1, r) \<longrightarrow> calls ws1 \<noteq> calls ws \<longrightarrow>
        clusters ws cluster_name = None
        \<and> take (Suc (length (calls ws))) (calls ws1)
            = calls ws @ [CreateCall cluster_name
                            \<lparr>vm_size = ''STANDARD_NC6'', min_nodes = 0, max_nodes = n\<rparr>])
   \<and> (provision k n cluster_name ws = Some (ws1, Inr h) \<longrightarrow> clusters ws cluster_name = None \<longrightarrow>
        calls ws1 = calls ws @ [CreateCall cluster_name (config h), WaitCompute cluster_name]
        \<and> (\<exists>m. waited h = Some (m, polls k m) \<and> terminal (polls k m)
                 \<and> (\<forall>j<m. \<not> terminal (polls k j))))
   \<and> (clusters ws cluster_name = None \<longrightarrow>
        valid_config k \<lparr>vm_size = ''STANDARD_NC6'', min_nodes = 0, max_nodes = n\<rparr> \<longrightarrow>
        service_accepts k \<lparr>vm_size = ''STANDARD_NC6'', min_nodes = 0, max_nodes = n\<rparr> \<longrightarrow>
        ((\<exists>m. terminal (polls k m)) \<longleftrightarrow> provision k n cluster_name ws \<noteq> None))"
proof (intro conjI impI)
  assume "clusters ws cluster_name = Some c"
  then show "provision k n cluster_name ws
        = Some (ws, Inr \<lparr>name = cluster_name, config = c, waited = None\<rparr>)"
    by (rule provision_hit)
next
  assume run: "provision k n cluster_name ws = Some (ws1, r)" and new: "calls ws1 \<noteq> calls ws"
  show miss: "clusters ws cluster_name = None"
  proof (rule ccontr)
    assume "clusters ws cluster_name \<noteq> None"
    then obtain c where "clusters ws cluster_name = Some c" by auto
    from provision_hit [OF this] run new show False by simp
  qed
  from run new show "take (Suc (length (calls ws))) (calls ws1)
            = calls ws @ [CreateCall cluster_name
                            \<lparr>vm_size = ''STANDARD_NC6'', min_nodes = 0, max_nodes = n\<rparr>]"
    by (auto simp: provision_miss [OF miss] split: if_splits option.splits)
next
  assume run: "provision k n cluster_name ws = Some (ws1, Inr h)"
    and miss: "clusters ws cluster_name = None"
  from run obtain w where w: "poll_until terminal (polls k) 0 = Some w"
    and h: "h = \<lparr>name = cluster_name,
                 config = \<lparr>vm_size = ''STANDARD_NC6'', min_nodes = 0, max_nodes = n\<rparr>,
                 waited = Some w\<rparr>"
    and c: "calls ws1 = calls ws @ [CreateCall cluster_name
                 \<lparr>vm_size = ''STANDARD_NC6'', min_nodes = 0, max_nodes = n\<rparr>, WaitCompute cluster_name]"
    by (auto simp: provision_miss [OF miss] split: if_splits option.splits)
  from c h show "calls ws1 = calls ws @ [CreateCall cluster_name (config h), WaitCompute cluster_name]"
    by simp
  from poll_until_sound [OF w] h
  show "\<exists>m. waited h = Some (m, polls k m) \<and> terminal (polls k m)
                 \<and> (\<forall>j<m. \<not> terminal (polls k j))"
    by (cases w) auto
next
  assume miss: "clusters ws cluster_name = None"
    and ok: "valid_config k \<lparr>vm_size = ''STANDARD_NC6'', min_nodes = 0, max_nodes = n\<rparr>"
      "service_accepts k \<lparr>vm_size = ''STANDARD_NC6'', min_nodes = 0, max_nodes = n\<rparr>"
  show "(\<exists>m. terminal (polls k m)) \<longleftrightarrow> provision k n cluster_name ws \<noteq> None"
  proof
    assume "\<exists>m. terminal (polls k m)"
    then obtain m where "terminal (polls k (0 + m))" by auto
    then have "\<exists>r. poll_until terminal (polls k) 0 = Some r"
      by (rule poll_until_complete [of terminal "polls k" 0 m])
    with ok
    show "provision k n cluster_name ws \<noteq> None"
      by (auto simp: provision_miss [OF miss])
  next
    assume "provision k n cluster_name ws \<noteq> None"
    with ok obtain w where "poll_until terminal (polls k) 0 = Some w"
      by (auto simp: provision_miss [OF miss] split: option.splits)
    from poll_until_sound [OF this] show "\<exists>m. terminal (polls k m)"
      by blast
  qed
qed

lemma strict_sdk_wait: "poll_until terminal (polls strict_sdk) 0 = Some (2, Succeeded)"
proof -
  have "poll_until terminal (polls strict_sdk) 2 = Some (2, Succeeded)"
    by (subst poll_until.simps) (simp add: strict_sdk_def)
  then have "poll_until terminal (polls strict_sdk) (Suc 0) = Some (2, Succeeded)"
    by (subst poll_until.simps) (simp add: strict_sdk_def numeral_2_eq_2)
  then show ?thesis
    by (subst poll_until.simps) (simp add: strict_sdk_def)
qed

lemma provision_empty_ws:
  "provision strict_sdk 4 ''gpu-entail'' empty_ws =
     Some (\<lparr>clusters = [''gpu-entail'' \<mapsto> \<lparr>vm_size = ''STANDARD_NC6'', min_nodes = 0, max_nodes = 4\<rparr>],
            calls = [CreateCall ''gpu-entail'' \<lparr>vm_size = ''STANDARD_NC6'', min_nodes = 0, max_nodes = 4\<rparr>,
                     WaitCompute ''gpu-entail'']\<rparr>,
           Inr \<lparr>name = ''gpu-entail'',
                config = \<lparr>vm_size = ''STANDARD_NC6'', min_nodes = 0, max_nodes = 4\<rparr>,
                waited = Some (2, Succeeded)\<rparr>)"
proof -
  have "clusters empty_ws ''gpu-entail'' = None" by (simp add: empty_ws_def)
  from provision_miss [OF this, of strict_sdk 4] show ?thesis
    by (simp add: strict_sdk_wait) (simp add: strict_sdk_def empty_ws_def)
qed

theorem provision_get_or_create_witness:
  "clusters existing_ws ''gpu-entail''
      = Some \<lparr>vm_size = ''STANDARD_NC6S_V2'', min_nodes = 0, max_nodes = 4\<rparr>
   \<and> provision strict_sdk 4 ''gpu-entail'' existing_ws
      = Some (existing_ws,
              Inr \<lparr>name = ''gpu-entail'',
                   config = \<lparr>vm_size = ''STANDARD_NC6S_V2'', min_nodes = 0, max_nodes = 4\<rparr>,
                   waited = None\<rparr>)
   \<and> clusters empty_ws ''gpu-entail'' = None
   \<and> valid_config strict_sdk \<lparr>vm_size = ''STANDARD_NC6'', min_nodes = 0, max_nodes = 4\<rparr>
   \<and> service_accepts strict_sdk \<lparr>vm_size = ''STANDARD_NC6'', min_nodes = 0, max_nodes = 4\<rparr>
   \<and> terminal (polls strict_sdk 2)
   \<and> provision strict_sdk 4 ''gpu-entail'' empty_ws \<noteq> None
   \<and> calls (fst (the (provision strict_sdk 4 ''gpu-entail'' empty_ws))) \<noteq> calls empty_ws
   \<and> waited (projr (snd (the (provision strict_sdk 4 ''gpu-entail'' empty_ws))))
       = Some (2, Succeeded)"
proof -
  have hit: "clusters existing_ws ''gpu-entail''
      = Some \<lparr>vm_size = ''STANDARD_NC6S_V2'', min_nodes = 0, max_nodes = 4\<rparr>"
    by (simp add: existing_ws_def)
  have miss: "clusters empty_ws ''gpu-entail'' = None"
    by (simp add: empty_ws_def)
  have ok: "valid_config strict_sdk \<lparr>vm_size = ''STANDARD_NC6'', min_nodes = 0, max_nodes = 4\<rparr>"
    "service_accepts strict_sdk \<lparr>vm_size = ''STANDARD_NC6'', min_nodes = 0, max_nodes = 4\<rparr>"
    "terminal (polls strict_sdk 2)"
    by (simp_all add: strict_sdk_def)
  from provision_get_or_create [of existing_ws "''gpu-entail''"
      "\<lparr>vm_size = ''STANDARD_NC6S_V2'', min_nodes = 0, max_nodes = 4\<rparr>" strict_sdk 4] hit
  have a: "provision strict_sdk 4 ''gpu-entail'' existing_ws
      = Some (existing_ws,
              Inr \<lparr>name = ''gpu-entail'',
                   config = \<lparr>vm_size = ''STANDARD_NC6S_V2'', min_nodes = 0, max_nodes = 4\<rparr>,
                   waited = None\<rparr>)"
    by blast
  from provision_get_or_create [of empty_ws "''gpu-entail''" _ strict_sdk 4] miss ok
  have b: "provision strict_sdk 4 ''gpu-entail'' empty_ws \<noteq> None"
    by blast
  have c: "calls (fst (the (provision strict_sdk 4 ''gpu-entail'' empty_ws))) \<noteq> calls empty_ws"
    by (simp add: provision_empty_ws) (simp add: empty_ws_def)
  have d: "waited (projr (snd (the (provision strict_sdk 4 ''gpu-entail'' empty_ws))))
       = Some (2, Succeeded)"
    by (simp add: provision_empty_ws)
  show ?thesis
    using hit a miss ok b c d by blast
qed

lemma ordered_sdk_wait: "poll_until terminal (polls ordered_sdk) 0 = Some (2, Succeeded)"
proof -
  have "terminal (polls ordered_sdk 2)" "\<forall>j<2. \<not> terminal (polls ordered_sdk j)"
    by (simp_all add: ordered_sdk_def)
  from poll_until_first [of terminal "polls ordered_sdk", OF this] show ?thesis
    by (simp add: ordered_sdk_def)
qed

lemma failing_sdk_wait: "poll_until terminal (polls failing_sdk) 0 = Some (1, Failed)"
proof -
  have "terminal (polls failing_sdk 1)" "\<forall>j<1. \<not> terminal (polls failing_sdk j)"
    by (simp_all add: failing_sdk_def)
  from poll_until_first [of terminal "polls failing_sdk", OF this] show ?thesis
    by (simp add: failing_sdk_def)
qed

text \<open>
  A provisioning that ends in \<open>Failed\<close> ends the cell with the exception, after the
  create request and the wait; the failed cluster stays registered in the workspace.
\<close>

lemma provision_failed:
  "provision failing_sdk 4 ''gpu-entail'' empty_ws =
     Some (\<lparr>clusters = [''gpu-entail'' \<mapsto> \<lparr>vm_size = ''STANDARD_NC6'', min_nodes = 0, max_nodes = 4\<rparr>],
            calls = [CreateCall ''gpu-entail'' \<lparr>vm_size = ''STANDARD_NC6'', min_nodes = 0, max_nodes = 4\<rparr>,
                     WaitCompute ''gpu-entail'']\<rparr>,
           Inl ComputeTargetException)"
proof -
  have "clusters empty_ws ''gpu-entail'' = None" by (simp add: empty_ws_def)
  from provision_miss [OF this, of failing_sdk 4] show ?thesis
    by (simp add: failing_sdk_wait) (simp add: failing_sdk_def empty_ws_def)
qed

text \<open>
  Claim C4, as the code has it. The cell itself validates nothing. On a lookup hit it
  returns the existing cluster whatever maximum node count is requested, 0 included. On
  a miss it forwards the bounds 0 and \<open>NODE_COUNT\<close> to the SDK unchanged. When the SDK
  or the service refuses that configuration, the cell ends with the SDK's
  \<^verbatim>\<open>ComputeTargetException\<close>. When the cell returns a cluster it has created, the SDK and
  the service have accepted the configuration, the cluster has minimum 0 and maximum
  \<open>NODE_COUNT\<close>, and so its bounds satisfy \<open>0 \<le> min \<le> max\<close> whenever \<open>NODE_COUNT\<close> is
  not negative. And when the SDK and the service accept the configuration and the first
  terminal provisioning state is \<open>Succeeded\<close>, the cell does return the created cluster,
  also for a maximum of 0.
\<close>

theorem provision_forwards_bounds:
  "(clusters ws cluster_name = Some c \<longrightarrow>
      provision k n cluster_name ws
        = Some (ws, Inr \<lparr>name = cluster_name, config = c, waited = None\<rparr>))
   \<and> (clusters ws cluster_name = None \<longrightarrow>
        \<not> (valid_config k \<lparr>vm_size = ''STANDARD_NC6'', min_nodes = 0, max_nodes = n\<rparr>
           \<and> service_accepts k \<lparr>vm_size = ''STANDARD_NC6'', min_nodes = 0, max_nodes = n\<rparr>) \<longrightarrow>
        (\<exists>ws'. provision k n cluster_name ws = Some (ws', Inl ComputeTargetException)
                \<and> clusters ws' = clusters ws))
   \<and> (clusters ws cluster_name = None \<longrightarrow> provision k n cluster_name ws = Some (ws1, Inr h) \<longrightarrow>
        valid_config k \<lparr>vm_size = ''STANDARD_NC6'', min_nodes = 0, max_nodes = n\<rparr>
        \<and> service_accepts k \<lparr>vm_size = ''STANDARD_NC6'', min_nodes = 0, max_nodes = n\<rparr>
        \<and> config h = \<lparr>vm_size = ''STANDARD_NC6'', min_nodes = 0, max_nodes = n\<rparr>
        \<and> clusters ws1 cluster_name = Some (config h)
        \<and> (0 \<le> n \<longrightarrow> 0 \<le> min_nodes (config h) \<and> min_nodes (config h) \<le> max_nodes (config h)))
   \<and> (clusters ws cluster_name = None \<longrightarrow>
        valid_config k \<lparr>vm_size = ''STANDARD_NC6'', min_nodes = 0, max_nodes = n\<rparr> \<longrightarrow>
        service_accepts k \<lparr>vm_size = ''STANDARD_NC6'', min_nodes = 0, max_nodes = n\<rparr> \<longrightarrow>
        polls k m = Succeeded \<longrightarrow> (\<forall>j<m. \<not> terminal (polls k j)) \<longrightarrow>
        (\<exists>ws' h'. provision k n cluster_name ws = Some (ws', Inr h')
           \<and> config h' = \<lparr>vm_size = ''STANDARD_NC6'', min_nodes = 0, max_nodes = n\<rparr>
           \<and> clusters ws' cluster_name = Some (config h')))"
proof (intro conjI impI)
  assume "clusters ws cluster_name = Some c"
  then show "provision k n cluster_name ws
        = Some (ws, Inr \<lparr>name = cluster_name, config = c, waited = None\<rparr>)"
    by (rule provision_hit)
next
  assume miss: "clusters ws cluster_name = None"
    and "\<not> (valid_config k \<lparr>vm_size = ''STANDARD_NC6'', min_nodes = 0, max_nodes = n\<rparr>
           \<and> service_accepts k \<lparr>vm_size = ''STANDARD_NC6'', min_nodes = 0, max_nodes = n\<rparr>)"
  then show "\<exists>ws'. provision k n cluster_name ws = Some (ws', Inl ComputeTargetException)
                \<and> clusters ws' = clusters ws"
    by (auto simp: provision_miss [OF miss])
next
  assume miss: "clusters ws cluster_name = None"
    and run: "provision k n cluster_name ws = Some (ws1, Inr h)"
  from run show "valid_config k \<lparr>vm_size = ''STANDARD_NC6'', min_nodes = 0, max_nodes = n\<rparr>"
    by (auto simp: provision_miss [OF miss] split: if_splits)
  from run show "service_accepts k \<lparr>vm_size = ''STANDARD_NC6'', min_nodes = 0, max_nodes = n\<rparr>"
    by (auto simp: provision_miss [OF miss] split: if_splits)
  from run have h: "config h = \<lparr>vm_size = ''STANDARD_NC6'', min_nodes = 0, max_nodes = n\<rparr>"
    and c: "clusters ws1 cluster_name = Some (config h)"
    by (auto simp: provision_miss [OF miss] split: if_splits option.splits)
  from h show "config h = \<lparr>vm_size = ''STANDARD_NC6'', min_nodes = 0, max_nodes = n\<rparr>" .
  from c show "clusters ws1 cluster_name = Some (config h)" .
  assume "0 \<le> n"
  with h show "0 \<le> min_nodes (config h)" "min_nodes (config h) \<le> max_nodes (config h)"
    by simp_all
next
  assume miss: "clusters ws cluster_name = None"
    and ok: "valid_config k \<lparr>vm_size = ''STANDARD_NC6'', min_nodes = 0, max_nodes = n\<rparr>"
      "service_accepts k \<lparr>vm_size = ''STANDARD_NC6'', min_nodes = 0, max_nodes = n\<rparr>"
    and m: "polls k m = Succeeded" and first: "\<forall>j<m. \<not> terminal (polls k j)"
  from m have "terminal (polls k m)" by simp
  from poll_until_first [of terminal "polls k", OF this first] m
  have "poll_until terminal (polls k) 0 = Some (m, Succeeded)" by simp
  with ok show "\<exists>ws' h'. provision k n cluster_name ws = Some (ws', Inr h')
           \<and> config h' = \<lparr>vm_size = ''STANDARD_NC6'', min_nodes = 0, max_nodes = n\<rparr>
           \<and> clusters ws' cluster_name = Some (config h')"
    by (simp add: provision_miss [OF miss])
qed

text \<open>
  With an SDK that only refuses bounds out of order: on a miss a maximum of 0 is
  accepted and the cluster is created with bounds 0 and 0; a maximum of -1 is refused
  and the cell ends with the exception, the workspace's clusters as they were.
\<close>

lemma provision_ordered_zero:
  "provision ordered_sdk 0 ''gpu-entail'' empty_ws =
     Some (\<lparr>clusters = [''gpu-entail'' \<mapsto> \<lparr>vm_size = ''STANDARD_NC6'', min_nodes = 0, max_nodes = 0\<rparr>],
            calls = [CreateCall ''gpu-entail'' \<lparr>vm_size = ''STANDARD_NC6'', min_nodes = 0, max_nodes = 0\<rparr>,
                     WaitCompute ''gpu-entail'']\<rparr>,
           Inr \<lparr>name = ''gpu-entail'',
                config = \<lparr>vm_size = ''STANDARD_NC6'', min_nodes = 0, max_nodes = 0\<rparr>,
                waited = Some (2, Succeeded)\<rparr>)"
proof -
  have "clusters empty_ws ''gpu-entail'' = None" by (simp add: empty_ws_def)
  from provision_miss [OF this, of ordered_sdk 0] show ?thesis
    by (simp add: ordered_sdk_wait) (simp add: ordered_sdk_def empty_ws_def)
qed

theorem provision_forwards_bounds_witness:
  "clusters existing_ws ''gpu-entail''
      = Some \<lparr>vm_size = ''STANDARD_NC6S_V2'', min_nodes = 0, max_nodes = 4\<rparr>
   \<and> provision ordered_sdk 0 ''gpu-entail'' existing_ws
      = Some (existing_ws,
              Inr \<lparr>name = ''gpu-entail'',
                   config = \<lparr>vm_size = ''STANDARD_NC6S_V2'', min_nodes = 0, max_nodes = 4\<rparr>,
                   waited = None\<rparr>)
   \<and> clusters empty_ws ''gpu-entail'' = None
   \<and> \<not> valid_config ordered_sdk \<lparr>vm_size = ''STANDARD_NC6'', min_nodes = 0, max_nodes = - 1\<rparr>
   \<and> (\<exists>ws'. provision ordered_sdk (- 1) ''gpu-entail'' empty_ws
               = Some (ws', Inl ComputeTargetException)
             \<and> clusters ws' = clusters empty_ws)
   \<and> valid_config ordered_sdk \<lparr>vm_size = ''STANDARD_NC6'', min_nodes = 0, max_nodes = 0\<rparr>
   \<and> service_accepts ordered_sdk \<lparr>vm_size = ''STANDARD_NC6'', min_nodes = 0, max_nodes = 0\<rparr>
   \<and> polls ordered_sdk 2 = Succeeded
   \<and> list_all (\<lambda>j. \<not> terminal (polls ordered_sdk j)) [0, 1]
   \<and> (\<exists>ws' h'. provision ordered_sdk 0 ''gpu-entail'' empty_ws = Some (ws', Inr h')
         \<and> config h' = \<lparr>vm_size = ''STANDARD_NC6'', min_nodes = 0, max_nodes = 0\<rparr>
         \<and> clusters ws' ''gpu-entail'' = Some (config h'))
   \<and> (0::int) \<le> 0
   \<and> min_nodes (config (projr (snd (the (provision ordered_sdk 0 ''gpu-entail'' empty_ws))))) = 0
   \<and> max_nodes (config (projr (snd (the (provision ordered_sdk 0 ''gpu-entail'' empty_ws))))) = 0"
proof -
  have hit: "clusters existing_ws ''gpu-entail''
      = Some \<lparr>vm_size = ''STANDARD_NC6S_V2'', min_nodes = 0, max_nodes = 4\<rparr>"
    by (simp add: existing_ws_def)
  have miss: "clusters empty_ws ''gpu-entail'' = None"
    by (simp add: empty_ws_def)
  have bad: "\<not> valid_config ordered_sdk \<lparr>vm_size = ''STANDARD_NC6'', min_nodes = 0, max_nodes = - 1\<rparr>"
    by (simp add: ordered_sdk_def)
  have ok: "valid_config ordered_sdk \<lparr>vm_size = ''STANDARD_NC6'', min_nodes = 0, max_nodes = 0\<rparr>"
    "service_accepts ordered_sdk \<lparr>vm_size = ''STANDARD_NC6'', min_nodes = 0, max_nodes = 0\<rparr>"
    "polls ordered_sdk 2 = Succeeded"
    by (simp_all add: ordered_sdk_def)
  have first: "\<forall>j<2. \<not> terminal (polls ordered_sdk j)"
    by (simp add: ordered_sdk_def)
  have first': "list_all (\<lambda>j. \<not> terminal (polls ordered_sdk j)) [0, 1]"
    by (simp add: ordered_sdk_def)
  from provision_forwards_bounds [of existing_ws "''gpu-entail''"
      "\<lparr>vm_size = ''STANDARD_NC6S_V2'', min_nodes = 0, max_nodes = 4\<rparr>" ordered_sdk 0] hit
  have a: "provision ordered_sdk 0 ''gpu-entail'' existing_ws
      = Some (existing_ws,
              Inr \<lparr>name = ''gpu-entail'',
                   config = \<lparr>vm_size = ''STANDARD_NC6S_V2'', min_nodes = 0, max_nodes = 4\<rparr>,
                   waited = None\<rparr>)"
    by blast
  from provision_forwards_bounds [of empty_ws "''gpu-entail''" _ ordered_sdk "- 1"] miss bad
  have b: "\<exists>ws'. provision ordered_sdk (- 1) ''gpu-entail'' empty_ws
               = Some (ws', Inl ComputeTargetException)
             \<and> clusters ws' = clusters empty_ws"
    by blast
  from provision_forwards_bounds [of empty_ws "''gpu-entail''" _ ordered_sdk 0 _ _ 2]
    miss ok first
  have c: "\<exists>ws' h'. provision ordered_sdk 0 ''gpu-entail'' empty_ws = Some (ws', Inr h')
         \<and> config h' = \<lparr>vm_size = ''STANDARD_NC6'', min_nodes = 0, max_nodes = 0\<rparr>
         \<and> clusters ws' ''gpu-entail'' = Some (config h')"
    by blast
  then obtain ws' h' where run: "provision ordered_sdk 0 ''gpu-entail'' empty_ws = Some (ws', Inr h')"
    by blast
  from provision_forwards_bounds [of empty_ws "''gpu-entail''" _ ordered_sdk 0 ws' h'] miss run
  have "0 \<le> min_nodes (config h') \<and> min_nodes (config h') \<le> max_nodes (config h')"
    "config h' = \<lparr>vm_size = ''STANDARD_NC6'', min_nodes = 0, max_nodes = 0\<rparr>"
    by simp_all
  with run
  have d: "min_nodes (config (projr (snd (the (provision ordered_sdk 0 ''gpu-entail'' empty_ws))))) = 0"
    "max_nodes (config (projr (snd (the (provision ordered_sdk 0 ''gpu-entail'' empty_ws))))) = 0"
    by simp_all
  show ?thesis
    using hit a miss bad b ok first' c d by simp
qed

text \<open>
  Claim C4 as stated fails on a lookup hit: with the cluster of the notebook's recorded
  output in the workspace, and even with an SDK that refuses a maximum of 0, a request
  with maximum node count 0 is not rejected; it returns the existing cluster.
\<close>

theorem provision_max_zero_counterexample:
  "provision strict_sdk 0 ''gpu-entail'' existing_ws
     = Some (existing_ws,
             Inr \<lparr>name = ''gpu-entail'',
                  config = \<lparr>vm_size = ''STANDARD_NC6S_V2'', min_nodes = 0, max_nodes = 4\<rparr>,
                  waited = None\<rparr>)"
  by (simp add: provision_def ComputeTarget_def existing_ws_def)

section \<open>Properties of the job packager\<close>

lemma tree_fs_below_missing:
  assumes "tree_fs fs" "fs p = None"
  shows "fs (p @ r) = None"
proof (induction r rule: rev_induct)
  case Nil
  with assms show ?case by simp
next
  case (snoc x r)
  show ?case
  proof (rule ccontr)
    assume "fs (p @ r @ [x]) \<noteq> None"
    with assms(1) have "fs (butlast (p @ r @ [x])) = Some Dir"
      unfolding tree_fs_def by blast
    with snoc show False by (simp add: butlast_append)
  qed
qed

lemma src_outside_staging: "\<not> prefix project_dir (utils_nlp_src @ r)"
  by (simp add: project_dir_def utils_nlp_src_def)

lemma dst_in_staging: "prefix utils_nlp_dst q \<Longrightarrow> prefix project_dir q"
  by (auto simp: utils_nlp_dst_def prefix_def)

lemma dst_below_staging: "\<not> prefix utils_nlp_dst project_dir" "\<not> prefix utils_nlp_dst []"
  by (simp_all add: utils_nlp_dst_def project_dir_def)

lemma dst_parents: "butlast (prefixes utils_nlp_dst) = [[], project_dir]"
  by (simp add: utils_nlp_dst_def project_dir_def)

lemma prefix_dst_cases:
  "prefix q utils_nlp_dst \<longleftrightarrow> q = [] \<or> q = project_dir \<or> q = utils_nlp_dst"
  by (cases q; cases "tl q"; cases "tl (tl q)")
    (auto simp: utils_nlp_dst_def project_dir_def)

text \<open>The copy into a staging area in which nothing lies at or below \<^verbatim>\<open>utils_nlp\<close>.\<close>

lemma copytree_fresh:
  assumes "fs utils_nlp_src = Some Dir" "fs [] = Some Dir" "\<not> is_file fs project_dir"
    "\<not> exists_path fs utils_nlp_dst"
  shows "copytree fs utils_nlp_src utils_nlp_dst =
           Inr (\<lambda>q. if prefix utils_nlp_dst q
                     then fs (utils_nlp_src @ drop (length utils_nlp_dst) q)
                     else if q = [] \<or> q = project_dir then Some Dir
                     else fs q)"
proof -
  have "\<not> list_ex (is_file fs) (butlast (prefixes utils_nlp_dst))"
    using assms by (simp add: dst_parents is_file_def)
  moreover have "(\<lambda>q. if prefix utils_nlp_dst q
                     then fs (utils_nlp_src @ drop (length utils_nlp_dst) q)
                     else if prefix q utils_nlp_dst then Some Dir
                     else fs q)
              = (\<lambda>q. if prefix utils_nlp_dst q
                     then fs (utils_nlp_src @ drop (length utils_nlp_dst) q)
                     else if q = [] \<or> q = project_dir then Some Dir
                     else fs q)"
    by (rule ext) (auto simp: prefix_dst_cases)
  ultimately show ?thesis
    using assms by (simp add: copytree_def)
qed

lemma packager_debug:
  assumes below: "fs project_dir = None \<Longrightarrow> \<forall>r. fs (project_dir @ r) = None"
    and lib: "fs utils_nlp_src = Some Dir" and cwd: "fs [] = Some Dir"
    and st: "\<not> is_file fs project_dir"
  shows "packager True fs =
           Inr (\<lambda>q. if prefix project_dir q then staged_copy fs q else fs q)"
proof -
  define fs0 where "fs0 = (\<lambda>q. if prefix project_dir q then None else fs q)"
  have step1: "(if exists_path fs project_dir then rmtree fs project_dir else Inr fs) = Inr fs0"
  proof (cases "fs project_dir")
    case None
    have "fs q = fs0 q" for q
      using below [OF None] by (auto simp: fs0_def prefix_def)
    then have "fs = fs0" by (rule ext)
    with None show ?thesis by (simp add: exists_path_def)
  next
    case (Some n)
    with st have "n = Dir" by (cases n) (simp_all add: is_file_def)
    with Some show ?thesis by (simp add: exists_path_def rmtree_def fs0_def)
  qed
  have pre: "fs0 utils_nlp_src = Some Dir" "fs0 [] = Some Dir" "\<not> is_file fs0 project_dir"
    "\<not> exists_path fs0 utils_nlp_dst"
  proof -
    show "fs0 utils_nlp_src = Some Dir"
      using lib src_outside_staging [of "[]"] by (simp add: fs0_def)
    show "fs0 [] = Some Dir"
      using cwd by (simp add: fs0_def project_dir_def)
    show "\<not> is_file fs0 project_dir"
      by (simp add: fs0_def is_file_def)
    show "\<not> exists_path fs0 utils_nlp_dst"
      by (simp add: fs0_def exists_path_def utils_nlp_dst_def)
  qed
  have "(\<lambda>q. if prefix utils_nlp_dst q
              then fs0 (utils_nlp_src @ drop (length utils_nlp_dst) q)
              else if q = [] \<or> q = project_dir then Some Dir
              else fs0 q)
        = (\<lambda>q. if prefix project_dir q then staged_copy fs q else fs q)"
  proof (rule ext)
    fix q
    show "(if prefix utils_nlp_dst q
              then fs0 (utils_nlp_src @ drop (length utils_nlp_dst) q)
              else if q = [] \<or> q = project_dir then Some Dir
              else fs0 q)
        = (if prefix project_dir q then staged_copy fs q else fs q)"
      using cwd src_outside_staging dst_in_staging [of q] dst_below_staging
      by (auto simp: fs0_def staged_copy_def)
  qed
  with copytree_fresh [OF pre] step1 show ?thesis
    by (simp add: packager_def)
qed

lemma staged_copy_cong:
  "(\<And>r. fs1 (utils_nlp_src @ r) = fs (utils_nlp_src @ r)) \<Longrightarrow> staged_copy fs1 q = staged_copy fs q"
  by (simp add: staged_copy_def)

lemma packager_keeps_without_debug:
  assumes "packager False fs = Inr fs2"
    and "prefix project_dir q" "q \<noteq> project_dir" "\<not> prefix utils_nlp_dst q"
  shows "fs2 q = fs q"
proof -
  from assms(2,3,4) have "\<not> prefix q utils_nlp_dst"
    by (auto simp: prefix_dst_cases project_dir_def)
  with assms(1,4) show ?thesis
    by (auto simp: packager_def copytree_def split: option.splits node.splits if_splits)
qed

lemma packager_exists_without_debug:
  assumes "fs utils_nlp_src = Some Dir" "exists_path fs utils_nlp_dst"
  shows "packager False fs = Inl FileExistsError"
  using assms by (simp add: packager_def copytree_def)

text \<open>
  Claim C1, as the code has it. The deletion is guarded by \<^verbatim>\<open>DEBUG\<close>. With \<^verbatim>\<open>DEBUG\<close> true,
  on a file system tree in which the library tree exists and \<^verbatim>\<open>./entail_utils\<close> is not a
  regular file, the packager succeeds, the staging directory then holds exactly one copy
  of the library tree and nothing else, everything outside it is unchanged, and a second
  run in succession leaves the same file system. With \<^verbatim>\<open>DEBUG\<close> false nothing is
  deleted: what lay in the staging directory outside \<^verbatim>\<open>utils_nlp\<close> is still there after
  a successful run, and the run raises \<^verbatim>\<open>FileExistsError\<close> when the staged copy already
  exists.
\<close>

theorem packager_debug_idempotent:
  assumes "tree_fs fs" "fs utils_nlp_src = Some Dir" "fs [] = Some Dir"
    "\<not> is_file fs project_dir"
  shows "(\<exists>fs1. packager True fs = Inr fs1
           \<and> (\<forall>q. prefix project_dir q \<longrightarrow> fs1 q = staged_copy fs q)
           \<and> (\<forall>q. \<not> prefix project_dir q \<longrightarrow> fs1 q = fs q)
           \<and> packager True fs1 = Inr fs1)
    \<and> (exists_path fs utils_nlp_dst \<longrightarrow> packager False fs = Inl FileExistsError)
    \<and> (\<forall>fs2 q. packager False fs = Inr fs2 \<longrightarrow> prefix project_dir q \<longrightarrow> q \<noteq> project_dir
           \<longrightarrow> \<not> prefix utils_nlp_dst q \<longrightarrow> fs2 q = fs q)"
proof (intro conjI)
  define fs1 where "fs1 = (\<lambda>q. if prefix project_dir q then staged_copy fs q else fs q)"
  have run1: "packager True fs = Inr fs1"
    unfolding fs1_def using assms
    by (intro packager_debug) (auto dest: tree_fs_below_missing)
  have src: "fs1 (utils_nlp_src @ r) = fs (utils_nlp_src @ r)" for r
    by (simp add: fs1_def src_outside_staging)
  have sc: "staged_copy fs1 q = staged_copy fs q" for q
    by (rule staged_copy_cong) (rule src)
  have same: "(\<lambda>q. if prefix project_dir q then staged_copy fs1 q else fs1 q) = fs1"
    by (rule ext) (simp add: sc, simp add: fs1_def)
  have "fs1 project_dir = Some Dir"
    by (simp add: fs1_def staged_copy_def)
  moreover have "fs1 utils_nlp_src = Some Dir"
    using src [of "[]"] assms(2) by simp
  moreover have "fs1 [] = Some Dir"
    using assms(3) by (simp add: fs1_def project_dir_def)
  ultimately have "packager True fs1 =
      Inr (\<lambda>q. if prefix project_dir q then staged_copy fs1 q else fs1 q)"
    by (intro packager_debug) (simp_all add: is_file_def)
  with same have run2: "packager True fs1 = Inr fs1" by simp
  show "\<exists>fs1. packager True fs = Inr fs1
           \<and> (\<forall>q. prefix project_dir q \<longrightarrow> fs1 q = staged_copy fs q)
           \<and> (\<forall>q. \<not> prefix project_dir q \<longrightarrow> fs1 q = fs q)
           \<and> packager True fs1 = Inr fs1"
    using run1 run2 by (intro exI [of _ fs1]) (simp add: fs1_def)
  show "exists_path fs utils_nlp_dst \<longrightarrow> packager False fs = Inl FileExistsError"
    using assms(2) by (simp add: packager_exists_without_debug)
  show "\<forall>fs2 q. packager False fs = Inr fs2 \<longrightarrow> prefix project_dir q \<longrightarrow> q \<noteq> project_dir
           \<longrightarrow> \<not> prefix utils_nlp_dst q \<longrightarrow> fs2 q = fs q"
    using packager_keeps_without_debug by blast
qed

lemma tree_example_fs: "tree_fs example_fs"
  by (auto simp: tree_fs_def example_fs_def split: if_splits)

lemma example_fs_ok:
  "example_fs utils_nlp_src = Some Dir" "example_fs [] = Some Dir"
  "\<not> is_file example_fs project_dir"
  by (simp_all add: example_fs_def utils_nlp_src_def project_dir_def is_file_def)

theorem packager_debug_idempotent_witness:
  "tree_fs example_fs \<and> example_fs utils_nlp_src = Some Dir \<and> example_fs [] = Some Dir
   \<and> \<not> is_file example_fs project_dir
   \<and> (\<exists>fs1. packager True example_fs = Inr fs1
         \<and> fs1 [''entail_utils'', ''stale.py''] = None
         \<and> fs1 [''entail_utils'', ''utils_nlp'', ''timer.py''] = Some (File ''class Timer'')
         \<and> packager True fs1 = Inr fs1)"
proof -
  from packager_debug_idempotent [OF tree_example_fs example_fs_ok]
  obtain fs1 where run: "packager True example_fs = Inr fs1"
    and staged: "\<forall>q. prefix project_dir q \<longrightarrow> fs1 q = staged_copy example_fs q"
    and again: "packager True fs1 = Inr fs1"
    by blast
  have "fs1 [''entail_utils'', ''stale.py''] = None"
    using staged
    by (simp add: project_dir_def staged_copy_def utils_nlp_dst_def)
  moreover have "fs1 [''entail_utils'', ''utils_nlp'', ''timer.py''] = Some (File ''class Timer'')"
    using staged
    by (simp add: project_dir_def staged_copy_def utils_nlp_dst_def utils_nlp_src_def
        example_fs_def)
  ultimately show ?thesis
    using run again tree_example_fs example_fs_ok by blast
qed

text \<open>
  Claim C1 as stated fails when \<^verbatim>\<open>DEBUG\<close> is false: on the example the stale file of the
  prior staging directory survives the run, and a second run in succession raises
  \<^verbatim>\<open>FileExistsError\<close> instead of leaving a fresh copy.
\<close>

theorem packager_without_debug_counterexample:
  "\<not> isl (packager False example_fs)
   \<and> projr (packager False example_fs) [''entail_utils'', ''stale.py''] = Some (File ''old'')
   \<and> packager False (projr (packager False example_fs)) = Inl FileExistsError"
  by (simp add: packager_def copytree_def example_fs_def exists_path_def is_file_def
      utils_nlp_src_def utils_nlp_dst_def project_dir_def)

section \<open>Properties of the cache directory\<close>

lemma less_10_cases:
  "d < 10 \<Longrightarrow> d = 0 \<or> d = 1 \<or> d = 2 \<or> d = 3 \<or> d = 4 \<or> d = 5 \<or> d = 6 \<or> d = 7 \<or> d = 8 \<or> d = (9::nat)"
  by arith

lemma digit_val_digit_char: "d < 10 \<Longrightarrow> digit_val (digit_char d) = d"
  by (drule less_10_cases) (auto simp: digit_val_def digit_char_def)

lemma digit_char_not_minus: "d < 10 \<Longrightarrow> digit_char d \<noteq> CHR ''-''"
  by (drule less_10_cases) (auto simp: digit_char_def)

lemma dec_value_snoc: "dec_value (s @ [c]) = 10 * dec_value s + digit_val c"
  by (simp add: dec_value_def)

lemma dec_value_digits10: "dec_value (digits10 n) = n"
proof (induction n rule: digits10.induct)
  case (1 n)
  show ?case
  proof (cases "n < 10")
    case True
    then show ?thesis by (subst digits10.simps) (simp add: dec_value_def digit_val_digit_char)
  next
    case False
    then have "dec_value (digits10 n) = 10 * dec_value (digits10 (n div 10)) + n mod 10"
      by (subst digits10.simps) (simp add: dec_value_snoc digit_val_digit_char)
    also have "\<dots> = 10 * (n div 10) + n mod 10"
      using "1.IH" False by simp
    finally show ?thesis by simp
  qed
qed

lemma digits10_inj: "digits10 m = digits10 n \<Longrightarrow> m = n"
  by (metis dec_value_digits10)

lemma hd_digits10: "\<exists>d<10. hd (digits10 n) = digit_char d \<and> digits10 n \<noteq> []"
proof (induction n rule: digits10.induct)
  case (1 n)
  show ?case
  proof (cases "n < 10")
    case True
    then have "digits10 n = [digit_char n]" by (subst digits10.simps) simp
    with True show ?thesis by auto
  next
    case False
    with "1.IH" obtain d where d: "d < 10" "hd (digits10 (n div 10)) = digit_char d"
      "digits10 (n div 10) \<noteq> []" by auto
    have "digits10 n = digits10 (n div 10) @ [digit_char (n mod 10)]"
      using False by (subst digits10.simps) simp
    with d show ?thesis by auto
  qed
qed

lemma digits10_no_minus: "digits10 n \<noteq> CHR ''-'' # s"
proof
  assume eq: "digits10 n = CHR ''-'' # s"
  obtain d where "d < 10" "hd (digits10 n) = digit_char d"
    using hd_digits10 by blast
  with eq show False using digit_char_not_minus by auto
qed

lemma format_d_inj: "format_d i = format_d j \<Longrightarrow> i = j"
proof -
  assume eq: "format_d i = format_d j"
  consider "i < 0" "j < 0" | "i < 0" "\<not> j < 0" | "\<not> i < 0" "j < 0" | "\<not> i < 0" "\<not> j < 0"
    by blast
  then show ?thesis
  proof cases
    case 1
    with eq have "nat (- i) = nat (- j)" by (auto simp: format_d_def dest: digits10_inj)
    with 1 show ?thesis by simp
  next
    case 2
    with eq have "digits10 (nat j) = CHR ''-'' # digits10 (nat (- i))"
      by (simp add: format_d_def)
    then show ?thesis using digits10_no_minus by blast
  next
    case 3
    with eq have "digits10 (nat i) = CHR ''-'' # digits10 (nat (- j))"
      by (simp add: format_d_def)
    then show ?thesis using digits10_no_minus by blast
  next
    case 4
    with eq have "nat i = nat j" by (auto simp: format_d_def dest: digits10_inj)
    with 4 show ?thesis by simp
  qed
qed

text \<open>
  Claim C10. Every worker derives its cache directory from its own rank as
  \<^verbatim>\<open>./xnli-<rank>\<close>; two workers with distinct ranks get distinct cache directory
  paths, so no cache directory path is shared between two workers.
\<close>

theorem cache_dir_distinct:
  "r1 \<noteq> r2 \<Longrightarrow> CACHE_DIR r1 \<noteq> CACHE_DIR r2"
  by (auto simp: CACHE_DIR_def dest: format_d_inj)

theorem cache_dir_distinct_witness:
  "(0::int) \<noteq> 3 \<and> CACHE_DIR 0 = ''./xnli-0'' \<and> CACHE_DIR 3 = ''./xnli-3''
     \<and> CACHE_DIR 0 \<noteq> CACHE_DIR 3"
  using cache_dir_distinct [of 0 3]
  by (simp add: CACHE_DIR_def format_d_def digit_char_def digits10.simps)

section \<open>Properties of the command-line surface\<close>















declare consume.simps [simp del]

text \<open>The three ways in which parsing goes on after a word.\<close>

lemma consume_Cons:
  assumes "consume cv (t # ts) ns = Inr ns'"
  shows "t \<noteq> ''--'' \<and>
    ((\<exists>d os. parse_optional t = Opt (Some (StoreTrue d, os, None))
        \<and> consume cv ts (store_true d ns) = Inr ns')
     \<or> (\<exists>d os e ns1. parse_optional t = Opt (Some (Store d, os, Some e))
        \<and> store cv d e ns = Some ns1 \<and> consume cv ts ns1 = Inr ns')
     \<or> (\<exists>d os v rest ns1. parse_optional t = Opt (Some (Store d, os, None))
        \<and> ts = v # rest \<and> v \<noteq> ''--'' \<and> parse_optional v = Arg
        \<and> store cv d v ns = Some ns1 \<and> consume cv rest ns1 = Inr ns'))"
proof -
  note step = consume.simps(2) [of cv t ts ns]
  from assms have t: "t \<noteq> ''--''"
    by (simp add: step split: if_splits)
  show ?thesis
  proof (cases "parse_optional t")
    case Arg
    with assms show ?thesis by (simp add: step split: if_splits)
  next
    case Ambiguous
    with assms show ?thesis by (simp add: step split: if_splits)
  next
    case (Opt o1)
    show ?thesis
    proof (cases o1)
      case None
      with assms Opt show ?thesis by (simp add: step split: if_splits)
    next
      case (Some tup)
      obtain a os ex where tup: "tup = (a, os, ex)" by (cases tup)
      note po = Opt [unfolded Some tup]
      show ?thesis
      proof (cases a)
        case HelpAction
        with assms po show ?thesis by (simp add: step split: if_splits)
      next
        case (StoreTrue d)
        with assms po t show ?thesis
          by (cases ex) (simp_all add: step)
      next
        case (Store d)
        show ?thesis
        proof (cases ex)
          case (Some e)
          with assms po t Store show ?thesis
            by (cases "store cv d e ns") (simp_all add: step)
        next
          case None
          note ex = None
          show ?thesis
          proof (cases ts)
            case Nil
            with assms po t Store ex show ?thesis by (simp add: consume.simps(2))
          next
            case (Cons v rest)
            with assms po t Store ex show ?thesis
              by (cases "store cv d v ns") (simp_all add: consume.simps(2) split: if_splits)
          qed
        qed
      qed
    qed
  qed
qed


text \<open>When parsing succeeds, every word is a registered flag or an argument.\<close>

lemma consume_words:
  "consume cv ts ns = Inr ns'
     \<Longrightarrow> list_all (\<lambda>t. t \<noteq> ''--'' \<and> flag_or_argument (parse_optional t)) ts"
proof (induction ts arbitrary: ns rule: length_induct)
  case (1 ts)
  show ?case
  proof (cases ts)
    case Nil
    then show ?thesis by simp
  next
    case (Cons t ts')
    have IH: "list_all (\<lambda>t. t \<noteq> ''--'' \<and> flag_or_argument (parse_optional t)) ys"
      if "consume cv ys n = Inr ns'" "length ys < length ts" for ys n
      using "1.IH" that by blast
    from "1.prems" Cons have run: "consume cv (t # ts') ns = Inr ns'" by simp
    from consume_Cons [OF run]
    consider (flag) d os where "t \<noteq> ''--''"
        "parse_optional t = Opt (Some (StoreTrue d, os, None))"
        "consume cv ts' (store_true d ns) = Inr ns'"
      | (eq) d os e ns1 where "t \<noteq> ''--''"
        "parse_optional t = Opt (Some (Store d, os, Some e))"
        "consume cv ts' ns1 = Inr ns'"
      | (word) d os v rest ns1 where "t \<noteq> ''--''"
        "parse_optional t = Opt (Some (Store d, os, None))"
        "ts' = v # rest" "v \<noteq> ''--''" "parse_optional v = Arg" "consume cv rest ns1 = Inr ns'"
      by blast
    then show ?thesis
    proof cases
      case flag
      from flag(3) Cons have "list_all (\<lambda>t. t \<noteq> ''--'' \<and> flag_or_argument (parse_optional t)) ts'"
        by (intro IH) auto
      with flag(1,2) Cons show ?thesis by simp
    next
      case eq
      from eq(3) Cons have "list_all (\<lambda>t. t \<noteq> ''--'' \<and> flag_or_argument (parse_optional t)) ts'"
        by (intro IH) auto
      with eq(1,2) Cons show ?thesis by simp
    next
      case word
      from word(6) word(3) Cons
      have "list_all (\<lambda>t. t \<noteq> ''--'' \<and> flag_or_argument (parse_optional t)) rest"
        by (intro IH) auto
      with word(1-5) Cons show ?thesis by simp
    qed
  qed
qed









text \<open>The same with \<^verbatim>\<open>=\<close>: the value is what follows the first \<^verbatim>\<open>=\<close>, whatever it is.\<close>

lemma parse_optional_eq:
  "parse_optional (''--seed='' @ v) = Opt (Some (Store Seed, ''--seed'', Some v))"
  "parse_optional (''--epochs='' @ v) = Opt (Some (Store Epochs, ''--epochs'', Some v))"
  "parse_optional (''--data_percent_used='' @ v)
     = Opt (Some (Store Data_percent_used, ''--data_percent_used'', Some v))"
  "parse_optional (''--no-cuda='' @ v) = Opt (Some (StoreTrue No_cuda, ''--no-cuda'', Some v))"
  by (simp_all add: parse_optional_def option_string_actions_def split_eq_def)

lemma flags_with_eq:
  "parse_args cv [''--seed='' @ v]
     = (case py_int cv v of None \<Rightarrow> Inl SystemExit | Some i \<Rightarrow> Inr (defaults\<lparr>seed := i\<rparr>))"
  "parse_args cv [''--epochs='' @ v]
     = (case py_int cv v of None \<Rightarrow> Inl SystemExit | Some i \<Rightarrow> Inr (defaults\<lparr>epochs := i\<rparr>))"
  "parse_args cv [''--data_percent_used='' @ v]
     = (case py_float cv v of None \<Rightarrow> Inl SystemExit
        | Some x \<Rightarrow> Inr (defaults\<lparr>data_percent_used := x\<rparr>))"
  "parse_args cv [''--no-cuda='' @ v] = Inl SystemExit"
proof -
  have dashes: "''--seed='' @ v \<noteq> ''--''" "''--epochs='' @ v \<noteq> ''--''"
    "''--data_percent_used='' @ v \<noteq> ''--''" "''--no-cuda='' @ v \<noteq> ''--''"
    by simp_all
  show "parse_args cv [''--seed='' @ v]
     = (case py_int cv v of None \<Rightarrow> Inl SystemExit | Some i \<Rightarrow> Inr (defaults\<lparr>seed := i\<rparr>))"
    using dashes(1) parse_optional_eq(1) [of v]
    by (simp add: parse_args_def consume.simps split: option.splits)
  show "parse_args cv [''--epochs='' @ v]
     = (case py_int cv v of None \<Rightarrow> Inl SystemExit | Some i \<Rightarrow> Inr (defaults\<lparr>epochs := i\<rparr>))"
    using dashes(2) parse_optional_eq(2) [of v]
    by (simp add: parse_args_def consume.simps split: option.splits)
  show "parse_args cv [''--data_percent_used='' @ v]
     = (case py_float cv v of None \<Rightarrow> Inl SystemExit
        | Some x \<Rightarrow> Inr (defaults\<lparr>data_percent_used := x\<rparr>))"
    using dashes(3) parse_optional_eq(3) [of v]
    by (simp add: parse_args_def consume.simps split: option.splits)
  show "parse_args cv [''--no-cuda='' @ v] = Inl SystemExit"
    using dashes(4) parse_optional_eq(4) [of v]
    by (simp add: parse_args_def consume.simps)
qed

text \<open>The word \<^verbatim>\<open>--\<close> ends parsing without a parsed value, also after an option.\<close>

lemma dashes_exit:
  "parse_args cv (pre @ ''--'' # post) = Inl SystemExit"
proof (cases "parse_args cv (pre @ ''--'' # post)")
  case (Inl e)
  then show ?thesis by (cases e) simp
next
  case (Inr ns)
  then have "list_all (\<lambda>t. t \<noteq> ''--'' \<and> flag_or_argument (parse_optional t))
               (pre @ ''--'' # post)"
    unfolding parse_args_def by (rule consume_words)
  then show ?thesis by simp
qed






section \<open>Properties of the training script\<close>

lemma run_stmts_append:
  "run_stmts env (xs @ ys) =
     (case run_stmts env xs of
        (evs, Some e) \<Rightarrow> (evs, Some e)
      | (evs, None) \<Rightarrow>
          (let (evs', r) = run_stmts (concat (rev (map binds xs)) @ env) ys
           in (evs @ evs', r)))"
  by (induction xs arbitrary: env) (auto split: option.splits prod.splits)

lemma find_unbound_None: "list_all (\<lambda>n. n \<in> set env) rs \<Longrightarrow> find (\<lambda>n. n \<notin> set env) rs = None"
  by (induction rs) auto

lemma scoped_run: "scoped env ss \<Longrightarrow> run_stmts env ss = (concat (map effects ss), None)"
  by (induction ss arbitrary: env) (auto simp: find_unbound_None)

lemma scoped_mono: "scoped env ss \<Longrightarrow> set env \<subseteq> set env' \<Longrightarrow> scoped env' ss"
proof (induction ss arbitrary: env env')
  case Nil
  then show ?case by simp
next
  case (Cons s ss)
  from Cons.prems have rs: "list_all (\<lambda>n. n \<in> set env') (reads s)"
    by (auto simp: list_all_iff)
  from Cons.prems have "scoped (binds s @ env) ss" and "set (binds s @ env) \<subseteq> set (binds s @ env')"
    by auto
  then have "scoped (binds s @ env') ss"
    by (rule Cons.IH)
  with rs show ?case by simp
qed

lemma scoped_append:
  "scoped env xs \<Longrightarrow> scoped (concat (rev (map binds xs)) @ env) ys \<Longrightarrow> scoped env (xs @ ys)"
  by (induction xs arbitrary: env) auto

lemma scoped_train_epoch:
  assumes "''train_loader'' \<in> set env" "''classifier'' \<in> set env" "''args'' \<in> set env"
    "''optimizer'' \<in> set env" "''NUM_GPUS'' \<in> set env"
  shows "scoped env (train_epoch e @ ss) = scoped (''epoch'' # env) ss"
  using assms by (simp add: train_epoch_def stmt_def)

lemma scoped_epochs:
  assumes "''train_loader'' \<in> set env" "''classifier'' \<in> set env" "''args'' \<in> set env"
    "''optimizer'' \<in> set env" "''NUM_GPUS'' \<in> set env"
  shows "scoped env (concat (map train_epoch es))"
  using assms
proof (induction es arbitrary: env)
  case Nil
  then show ?case by simp
next
  case (Cons e es)
  have "scoped (''epoch'' # env) (concat (map train_epoch es))"
    using Cons.prems by (intro Cons.IH; simp)
  with Cons.prems show ?case
    by (simp add: scoped_train_epoch)
qed

lemma scoped_train_loop:
  assumes "''train_loader'' \<in> set env" "''classifier'' \<in> set env" "''args'' \<in> set env"
    "''optimizer'' \<in> set env" "''NUM_GPUS'' \<in> set env" "''Timer'' \<in> set env"
    "''range'' \<in> set env"
  shows "scoped env (train_loop n_epochs)"
proof -
  have "scoped (''t'' # env) (concat (map train_epoch [1..n_epochs]))"
    using assms by (intro scoped_epochs; simp)
  with assms show ?thesis by (simp add: train_loop_def stmt_def)
qed

lemma effects_epochs: "concat (map effects (concat (map train_epoch es))) = map Fit es"
  by (induction es) (simp_all add: train_epoch_def stmt_def)

lemma effects_train_loop: "concat (map effects (train_loop n_epochs)) = map Fit [1..n_epochs]"
  by (simp add: train_loop_def stmt_def effects_epochs)

lemma binds_epochs: "set (concat (rev (map binds (concat (map train_epoch es))))) \<subseteq> {''epoch''}"
  by (induction es) (auto simp: train_epoch_def stmt_def)

lemma binds_train_loop:
  "set (concat (rev (map binds (train_loop n_epochs)))) \<subseteq> {''t'', ''epoch''}"
  using binds_epochs [of "[1..n_epochs]"] by (auto simp: train_loop_def stmt_def)

lemma scoped_prelude: "scoped builtins (train_prelude cuda c)"
  by (cases cuda)
    (simp_all add: train_prelude_def train_imports_def train_constants_def
      train_arguments_def train_setup_def stmt_def builtins_def)

lemma effects_prelude:
  "concat (map effects (train_prelude cuda c)) = [HvdInit, LoadDataset ''train'' c]"
  by (cases cuda)
    (simp_all add: train_prelude_def train_imports_def train_constants_def
      train_arguments_def train_setup_def stmt_def)

lemma prelude_env_eq:
  "prelude_env cuda c =
     [''optimizer'', ''num_train_optimization_steps'', ''num_batches'', ''num_samples'',
      ''train_loader'', ''classifier'', ''num_labels'', ''label_encoder'', ''train_dataset'',
      ''kwargs'', ''args'', ''parser'', ''CACHE_DIR'', ''LABELS'', ''OUTPUT_DIR'', ''NUM_GPUS'',
      ''BATCH_SIZE'', ''WARMUP_PROPORTION'', ''LEARNING_RATE'', ''PRETRAINED_BERT_LNG'',
      ''TO_LOWERCASE'', ''TEST_FILE_SPLIT'', ''TRAIN_FILE_SPLIT'', ''LANGUAGE_ENGLISH'',
      ''classification_report'', ''BERTSequenceClassifier'', ''Language'', ''XnliDataset'',
      ''Timer'', ''argparse'', ''time'', ''np'', ''torch'', ''hvd''] @ builtins"
  by (cases cuda)
    (simp_all add: prelude_env_def train_prelude_def train_imports_def train_constants_def
      train_arguments_def train_setup_def stmt_def)

lemma loop_env_bound:
  "n \<in> set (prelude_env cuda c) \<Longrightarrow> n \<in> set (loop_env cuda c n_epochs)"
  by (simp add: loop_env_def)

lemma loop_env_unbound:
  "n \<notin> set (prelude_env cuda c) \<Longrightarrow> n \<noteq> ''t'' \<Longrightarrow> n \<noteq> ''epoch''
     \<Longrightarrow> n \<notin> set (loop_env cuda c n_epochs)"
  using binds_train_loop [of n_epochs] by (auto simp: loop_env_def)


lemma json_unbound: "''json'' \<notin> set (loop_env cuda c n_epochs)"
  by (rule loop_env_unbound) (simp_all add: prelude_env_eq builtins_def)

lemma run_prelude_loop:
  "run_stmts builtins (train_prelude cuda c @ train_loop n_epochs @ rest) =
     (let (evs, r) = run_stmts (loop_env cuda c n_epochs) rest
      in ([HvdInit, LoadDataset ''train'' c] @ map Fit [1..n_epochs] @ evs, r))"
proof -
  have loop: "scoped (prelude_env cuda c) (train_loop n_epochs)"
    by (rule scoped_train_loop) (simp_all add: prelude_env_eq builtins_def)
  have "run_stmts (prelude_env cuda c) (train_loop n_epochs @ rest) =
     (let (evs, r) = run_stmts (loop_env cuda c n_epochs) rest in (map Fit [1..n_epochs] @ evs, r))"
    by (simp add: run_stmts_append [of _ "train_loop n_epochs"] scoped_run [OF loop]
        effects_train_loop loop_env_def)
  then show ?thesis
    by (simp add: run_stmts_append [of _ "train_prelude cuda c"] scoped_run [OF scoped_prelude]
        effects_prelude prelude_env_def [symmetric] split: prod.splits)
qed


lemma run_worker_nonzero:
  "rank \<noteq> 0 \<Longrightarrow>
     run_worker rank cuda n_epochs =
       ([HvdInit, LoadDataset ''train'' (CACHE_DIR rank)] @ map Fit [1..n_epochs], None)"
proof -
  assume "rank \<noteq> 0"
  then have "train_py rank cuda n_epochs =
      train_prelude cuda (CACHE_DIR rank) @ train_loop n_epochs @ [stmt [''hvd''] [] []]"
    by (simp add: train_py_def)
  moreover have "''hvd'' \<in> set (loop_env cuda (CACHE_DIR rank) n_epochs)"
    by (rule loop_env_bound) (simp add: prelude_env_eq)
  ultimately show ?thesis
    by (simp add: run_worker_def run_prelude_loop stmt_def)
qed


section \<open>Properties of the report formatter\<close>

lemma report_shape:
  "report_cell pd (Parsed parsed) = Inr df \<longleftrightarrow>
     df = \<lparr>index = keys parsed,
           columns = union_indexes pd (map (\<lambda>(label, record). keys record) parsed),
           data = map (\<lambda>(label, record).
                    map (dict_get pd parsed label record)
                      (union_indexes pd (map (\<lambda>(label, record). keys record) parsed)))
                  parsed\<rparr>"
proof -
  let ?idx = "union_indexes pd (map (\<lambda>(label, record). keys record) parsed)"
  have "map (\<lambda>j. map (\<lambda>row. row ! j)
                 (map (\<lambda>k. map (\<lambda>(label, record). dict_get pd parsed label record k) parsed)
                    ?idx))
          [0..<length parsed]
        = map (\<lambda>(label, record). map (dict_get pd parsed label record) ?idx) parsed"
    by (rule nth_equalityI) (auto simp: split_def)
  then show ?thesis
    by (auto simp: report_cell_def transpose_df_def from_dict_def Let_def keys_def)
qed

lemma report_data_nth:
  assumes "report_cell pd (Parsed parsed) = Inr df" "i < length parsed"
    "j < length (columns df)"
  shows "length (data df ! i) = length (columns df)"
    and "data df ! i ! j
           = dict_get pd parsed (fst (parsed ! i)) (snd (parsed ! i)) (columns df ! j)"
  using assms by (simp_all add: report_shape split_def)

lemma report_row_length:
  assumes "report_cell pd (Parsed parsed) = Inr df" "i < length parsed"
  shows "length (data df ! i) = length (columns df)"
  using assms by (simp add: report_shape split_def)

lemma dict_get_missing: "k \<notin> set (keys d) \<Longrightarrow> dict_get pd parsed label d k = NaN"
  by (simp add: dict_get_def keys_def map_of_eq_None_iff [THEN iffD2])

lemma dict_get_present:
  "distinct (keys d) \<Longrightarrow> (k, v) \<in> set d
     \<Longrightarrow> dict_get pd parsed label d k = cast pd parsed label k v"
  by (simp add: dict_get_def keys_def)

lemma dict_of_dicts_nth:
  "dict_of_dicts parsed \<Longrightarrow> i < length parsed \<Longrightarrow> distinct (keys (snd (parsed ! i)))"
  by (auto simp: dict_of_dicts_def list_all_length split_def)

text \<open>
  Claim C3, as the code has it. The cell validates nothing and there is no
  \<^verbatim>\<open>MalformedResultsError\<close>: whatever pandas does with the order of the columns and with
  the values, for every document that is a dict of dicts the cell builds a table, with one
  row for each class label in document order and one column for each label that pandas
  makes of the keys of the records; where a record lacks the key of a column its row
  has NaN, and where it has a value, number or not, its row has what pandas stores for
  that value.
\<close>

theorem report_never_validates:
  assumes "dict_of_dicts parsed"
  shows "\<exists>df. report_cell pd (Parsed parsed) = Inr df
           \<and> index df = keys parsed
           \<and> columns df = union_indexes pd (map (\<lambda>(label, record). keys record) parsed)
           \<and> length (data df) = length parsed
           \<and> (\<forall>i<length parsed. length (data df ! i) = length (columns df))
           \<and> (\<forall>i<length parsed. \<forall>j<length (columns df).
                 (columns df ! j \<notin> set (keys (snd (parsed ! i))) \<longrightarrow> data df ! i ! j = NaN)
                 \<and> (\<forall>v. (columns df ! j, v) \<in> set (snd (parsed ! i))
                        \<longrightarrow> data df ! i ! j
                              = cast pd parsed (fst (parsed ! i)) (columns df ! j) v))"
proof -
  obtain df where df: "report_cell pd (Parsed parsed) = Inr df"
    by (simp add: report_cell_def)
  have "(columns df ! j \<notin> set (keys (snd (parsed ! i))) \<longrightarrow> data df ! i ! j = NaN)
          \<and> (\<forall>v. (columns df ! j, v) \<in> set (snd (parsed ! i))
                \<longrightarrow> data df ! i ! j = cast pd parsed (fst (parsed ! i)) (columns df ! j) v)"
    if "i < length parsed" "j < length (columns df)" for i j
    using report_data_nth(2) [OF df that] dict_of_dicts_nth [OF assms that(1)]
    by (auto simp: dict_get_missing dict_get_present)
  moreover from df have "index df = keys parsed"
    "columns df = union_indexes pd (map (\<lambda>(label, record). keys record) parsed)"
    "length (data df) = length parsed"
    by (simp_all add: report_shape)
  moreover have "\<forall>i<length parsed. length (data df ! i) = length (columns df)"
    using report_row_length [OF df] by blast
  ultimately show ?thesis using df by blast
qed

lemma malformed_report_ordered:
  "report_cell pandas_ordered (Parsed malformed_results)
     = Inr \<lparr>index = [''entailment'', ''micro avg''],
            columns = [''precision'', ''f1-score'', ''support'', ''recall''],
            data = [[Value (JNum (87 / 100)), Value (JNum (82 / 100)), Value (JStr ''many''), NaN],
                    [Value (JNum (81 / 100)), Value (JNum (81 / 100)), Value (JNum 5010),
                     Value (JNum (81 / 100))]]\<rparr>"
  by (simp add: report_shape malformed_results_def metrics_def keys_def pandas_ordered_def
      first_seen_def as_it_is_def dict_get_def)

lemma malformed_report_sorting:
  "report_cell pandas_sorting (Parsed malformed_results)
     = Inr \<lparr>index = [''entailment'', ''micro avg''],
            columns = [''f1-score'', ''precision'', ''recall'', ''support''],
            data = [[Value (JNum (82 / 100)), Value (JNum (87 / 100)), NaN, Value (JStr ''many'')],
                    [Value (JNum (81 / 100)), Value (JNum (81 / 100)), Value (JNum (81 / 100)),
                     Value (JNum 5010)]]\<rparr>"
  by (simp add: report_shape malformed_results_def metrics_def keys_def pandas_sorting_def
      sorted_union_def as_it_is_def dict_get_def)

theorem report_never_validates_witness:
  "dict_of_dicts malformed_results
   \<and> (\<exists>df. report_cell pandas_ordered (Parsed malformed_results) = Inr df
         \<and> index df = [''entailment'', ''micro avg'']
         \<and> length (data df) = 2
         \<and> length (data df ! 0) = 4
         \<and> columns df ! 3 = ''recall''
         \<and> ''recall'' \<notin> set (keys (snd (malformed_results ! 0)))
         \<and> data df ! 0 ! 3 = NaN
         \<and> columns df ! 2 = ''support''
         \<and> (''support'', JStr ''many'') \<in> set (snd (malformed_results ! 0))
         \<and> data df ! 0 ! 2 = Value (JStr ''many''))"
proof -
  have d: "dict_of_dicts malformed_results"
    by (simp add: dict_of_dicts_def malformed_results_def metrics_def keys_def)
  from report_never_validates [OF d, of pandas_ordered] obtain df
    where df: "report_cell pandas_ordered (Parsed malformed_results) = Inr df" by blast
  then have "df = \<lparr>index = [''entailment'', ''micro avg''],
            columns = [''precision'', ''f1-score'', ''support'', ''recall''],
            data = [[Value (JNum (87 / 100)), Value (JNum (82 / 100)), Value (JStr ''many''), NaN],
                    [Value (JNum (81 / 100)), Value (JNum (81 / 100)), Value (JNum 5010),
                     Value (JNum (81 / 100))]]\<rparr>"
    by (simp add: malformed_report_ordered)
  moreover have "''recall'' \<notin> set (keys (snd (malformed_results ! 0)))"
    "(''support'', JStr ''many'') \<in> set (snd (malformed_results ! 0))"
    by (simp_all add: malformed_results_def keys_def)
  ultimately show ?thesis
    using d df by auto
qed

text \<open>
  Claim C3 as stated fails: a document whose \<^verbatim>\<open>entailment\<close> record lacks \<^verbatim>\<open>recall\<close> and
  has a string as \<^verbatim>\<open>support\<close> is rendered as a table with two rows, whether pandas sorts
  the columns or keeps them in the order in which the keys are first seen; the
  \<^verbatim>\<open>entailment\<close> row has NaN under \<^verbatim>\<open>recall\<close> and the string under \<^verbatim>\<open>support\<close>.
\<close>

theorem report_malformed_counterexample:
  "\<not> isl (report_cell pandas_ordered (Parsed malformed_results))
   \<and> index (projr (report_cell pandas_ordered (Parsed malformed_results)))
       = [''entailment'', ''micro avg'']
   \<and> loc (projr (report_cell pandas_ordered (Parsed malformed_results)))
         ''entailment'' ''recall'' = NaN
   \<and> loc (projr (report_cell pandas_ordered (Parsed malformed_results)))
         ''entailment'' ''support'' = Value (JStr ''many'')
   \<and> \<not> isl (report_cell pandas_sorting (Parsed malformed_results))
   \<and> index (projr (report_cell pandas_sorting (Parsed malformed_results)))
       = [''entailment'', ''micro avg'']
   \<and> loc (projr (report_cell pandas_sorting (Parsed malformed_results)))
         ''entailment'' ''recall'' = NaN
   \<and> loc (projr (report_cell pandas_sorting (Parsed malformed_results)))
         ''entailment'' ''support'' = Value (JStr ''many'')"
  by (simp add: malformed_report_ordered malformed_report_sorting loc_def)

text \<open>The two orders on the keys of a well-formed document.\<close>

lemma sorted_required_keys:
  "sorted [''f1-score'', ''precision'', ''recall'', ''support'']"
  "distinct [''f1-score'', ''precision'', ''recall'', ''support'']"
  "set [''f1-score'', ''precision'', ''recall'', ''support''] = set required_keys"
  by (auto simp: required_keys_def)

lemma well_formed_nonempty: "well_formed parsed \<Longrightarrow> parsed \<noteq> []"
  by (auto simp: well_formed_def keys_def)

lemma well_formed_keys:
  "well_formed parsed \<Longrightarrow> x \<in> set parsed \<Longrightarrow> set (keys (snd x)) = set required_keys"
  by (auto simp: well_formed_def list_all_iff)

lemma well_formed_sorted_union:
  assumes "well_formed parsed"
  shows "sorted_union (map (\<lambda>(label, record). keys record) parsed)
           = [''f1-score'', ''precision'', ''recall'', ''support'']"
proof -
  note ne = well_formed_nonempty [OF assms]
  note each = well_formed_keys [OF assms]
  have "set (concat (map (\<lambda>(label, record). keys record) parsed)) = set required_keys"
  proof
    show "set (concat (map (\<lambda>(label, record). keys record) parsed)) \<subseteq> set required_keys"
      using each by (auto simp: split_def)
    from ne obtain x where "x \<in> set parsed" by (cases parsed) auto
    with each show "set required_keys \<subseteq> set (concat (map (\<lambda>(label, record). keys record) parsed))"
      by (auto simp: split_def)
  qed
  moreover have "set (sorted_union (map (\<lambda>(label, record). keys record) parsed))
      = set (concat (map (\<lambda>(label, record). keys record) parsed))"
    by (simp add: sorted_union_def)
  ultimately have "set (sorted_union (map (\<lambda>(label, record). keys record) parsed))
      = set [''f1-score'', ''precision'', ''recall'', ''support'']"
    using sorted_required_keys(3) by (simp only:)
  moreover have "sorted (sorted_union (map (\<lambda>(label, record). keys record) parsed))"
    "distinct (sorted_union (map (\<lambda>(label, record). keys record) parsed))"
    by (simp_all add: sorted_union_def)
  ultimately show ?thesis
    using sorted_required_keys(1,2) by (intro sorted_distinct_set_unique)
qed

lemma fold_seen_new:
  "distinct xs \<Longrightarrow> set seen \<inter> set xs = {}
     \<Longrightarrow> fold (\<lambda>k seen. if k \<in> set seen then seen else seen @ [k]) xs seen = seen @ xs"
  by (induction xs arbitrary: seen) auto

lemma fold_seen_old:
  "set xs \<subseteq> set seen
     \<Longrightarrow> fold (\<lambda>k seen. if k \<in> set seen then seen else seen @ [k]) xs seen = seen"
  by (induction xs arbitrary: seen) auto

lemma well_formed_first_seen:
  assumes "well_formed parsed"
  shows "first_seen (map (\<lambda>(label, record). keys record) parsed) = keys (snd (hd parsed))"
proof -
  from well_formed_nonempty [OF assms] obtain x rest where p: "parsed = x # rest"
    by (cases parsed) auto
  from assms p have d: "distinct (keys (snd x))"
    by (auto simp: well_formed_def dict_of_dicts_def split_def)
  from well_formed_keys [OF assms] p
  have "set (concat (map (\<lambda>(label, record). keys record) rest)) \<subseteq> set (keys (snd x))"
    by (auto simp: split_def)
  then have "fold (\<lambda>k seen. if k \<in> set seen then seen else seen @ [k])
               (concat (map (\<lambda>(label, record). keys record) rest)) (keys (snd x))
             = keys (snd x)"
    by (rule fold_seen_old)
  moreover from d have "fold (\<lambda>k seen. if k \<in> set seen then seen else seen @ [k])
               (keys (snd x)) [] = keys (snd x)"
    using fold_seen_new [of "keys (snd x)" "[]"] by simp
  ultimately show ?thesis
    using p by (simp add: first_seen_def split_def)
qed

lemma well_formed_record:
  assumes "well_formed parsed" "i < length parsed" "k \<in> set required_keys"
  shows "\<exists>x. map_of (snd (parsed ! i)) k = Some (JNum x)
           \<and> dict_get pd parsed label (snd (parsed ! i)) k = cast pd parsed label k (JNum x)"
proof -
  let ?r = "snd (parsed ! i)"
  from assms(2) have "parsed ! i \<in> set parsed" by simp
  with assms(1) have keys: "set (keys ?r) = set required_keys"
    and nums: "\<forall>(k, v)\<in>set ?r. is_number v"
    by (auto simp: well_formed_def list_all_iff split_def)
  from keys assms(3) have "k \<in> fst ` set ?r" by (simp add: keys_def)
  then have "map_of ?r k \<noteq> None" by (simp add: map_of_eq_None_iff)
  then obtain v where v: "map_of ?r k = Some v" by blast
  then have "(k, v) \<in> set ?r" by (rule map_of_SomeD)
  with nums have "is_number v" by auto
  then obtain x where "v = JNum x" by (cases v) auto
  with v show ?thesis by (simp add: dict_get_def)
qed

text \<open>
  Claim C2, as the code has it. For every well-formed results document the table has one
  row for each label of the document, in document order. The order of its columns is
  the order pandas gives to the union of the keys of the records: with a pandas that
  lists each key where it is first seen, the columns are the keys of the first record in
  the order in which that record has them, so they are precision, recall, f1-score,
  support when the first record is written in that order; with a pandas that sorts, they
  are f1-score, precision, recall, support, as in the notebook's recorded output. Under
  each column that is one of the four keys, each row has what pandas stores for the
  record's number at that key.
\<close>

theorem report_rows_and_columns:
  assumes "well_formed parsed"
  shows "\<exists>df. report_cell pd (Parsed parsed) = Inr df
           \<and> index df = keys parsed
           \<and> length (data df) = length parsed
           \<and> (union_indexes pd = first_seen \<longrightarrow> columns df = keys (snd (hd parsed)))
           \<and> (union_indexes pd = first_seen
                \<and> keys (snd (hd parsed)) = [''precision'', ''recall'', ''f1-score'', ''support'']
                \<longrightarrow> columns df = [''precision'', ''recall'', ''f1-score'', ''support''])
           \<and> (union_indexes pd = sorted_union
                \<longrightarrow> columns df = [''f1-score'', ''precision'', ''recall'', ''support''])
           \<and> (\<forall>i<length parsed. length (data df ! i) = length (columns df)
                \<and> (\<forall>j<length (columns df). columns df ! j \<in> set required_keys \<longrightarrow>
                      (\<exists>x. map_of (snd (parsed ! i)) (columns df ! j) = Some (JNum x)
                          \<and> data df ! i ! j
                              = cast pd parsed (fst (parsed ! i)) (columns df ! j) (JNum x))))"
proof -
  obtain df where df: "report_cell pd (Parsed parsed) = Inr df"
    by (simp add: report_cell_def)
  from df have shape: "index df = keys parsed" "length (data df) = length parsed"
    and cols: "columns df = union_indexes pd (map (\<lambda>(label, record). keys record) parsed)"
    by (simp_all add: report_shape)
  from cols well_formed_first_seen [OF assms]
  have first: "union_indexes pd = first_seen \<longrightarrow> columns df = keys (snd (hd parsed))"
    by simp
  from cols well_formed_sorted_union [OF assms]
  have sorted: "union_indexes pd = sorted_union
      \<longrightarrow> columns df = [''f1-score'', ''precision'', ''recall'', ''support'']"
    by simp
  have cells: "length (data df ! i) = length (columns df)
      \<and> (\<forall>j<length (columns df). columns df ! j \<in> set required_keys \<longrightarrow>
            (\<exists>x. map_of (snd (parsed ! i)) (columns df ! j) = Some (JNum x)
                \<and> data df ! i ! j
                    = cast pd parsed (fst (parsed ! i)) (columns df ! j) (JNum x)))"
    if i: "i < length parsed" for i
  proof (intro conjI allI impI)
    show "length (data df ! i) = length (columns df)"
      using df i by (rule report_row_length)
  next
    fix j
    assume j: "j < length (columns df)" and k: "columns df ! j \<in> set required_keys"
    from well_formed_record [OF assms i k, of pd "fst (parsed ! i)"]
      report_data_nth(2) [OF df i j]
    show "\<exists>x. map_of (snd (parsed ! i)) (columns df ! j) = Some (JNum x)
                \<and> data df ! i ! j
                    = cast pd parsed (fst (parsed ! i)) (columns df ! j) (JNum x)"
      by auto
  qed
  from df shape first sorted cells show ?thesis by simp
qed

lemma example_report_ordered:
  "report_cell pandas_ordered (Parsed example_results)
     = Inr \<lparr>index = [''entailment'', ''micro avg'', ''macro avg'', ''weighted avg''],
            columns = [''precision'', ''recall'', ''f1-score'', ''support''],
            data = [[Value (JNum (87 / 100)), Value (JNum (76 / 100)), Value (JNum (82 / 100)),
                     Value (JNum 1670)],
                    [Value (JNum (81 / 100)), Value (JNum (81 / 100)), Value (JNum (81 / 100)),
                     Value (JNum 5010)],
                    [Value (JNum (82 / 100)), Value (JNum (81 / 100)), Value (JNum (81 / 100)),
                     Value (JNum 5010)],
                    [Value (JNum (82 / 100)), Value (JNum (81 / 100)), Value (JNum (81 / 100)),
                     Value (JNum 5010)]]\<rparr>"
  by (simp add: report_shape example_results_def metrics_def keys_def pandas_ordered_def
      first_seen_def as_it_is_def dict_get_def)

text \<open>The order of the notebook's recorded output.\<close>

lemma example_report_sorting:
  "report_cell pandas_sorting (Parsed example_results)
     = Inr \<lparr>index = [''entailment'', ''micro avg'', ''macro avg'', ''weighted avg''],
            columns = [''f1-score'', ''precision'', ''recall'', ''support''],
            data = [[Value (JNum (82 / 100)), Value (JNum (87 / 100)), Value (JNum (76 / 100)),
                     Value (JNum 1670)],
                    [Value (JNum (81 / 100)), Value (JNum (81 / 100)), Value (JNum (81 / 100)),
                     Value (JNum 5010)],
                    [Value (JNum (81 / 100)), Value (JNum (82 / 100)), Value (JNum (81 / 100)),
                     Value (JNum 5010)],
                    [Value (JNum (81 / 100)), Value (JNum (82 / 100)), Value (JNum (81 / 100)),
                     Value (JNum 5010)]]\<rparr>"
  by (simp add: report_shape example_results_def metrics_def keys_def pandas_sorting_def
      sorted_union_def as_it_is_def dict_get_def)

lemma reordered_report:
  "report_cell pandas_ordered (Parsed reordered_results)
     = Inr \<lparr>index = [''entailment'', ''micro avg'', ''macro avg'', ''weighted avg''],
            columns = [''f1-score'', ''precision'', ''recall'', ''support''],
            data = [[Value (JNum (82 / 100)), Value (JNum (87 / 100)), Value (JNum (76 / 100)),
                     Value (JNum 1670)],
                    [Value (JNum (81 / 100)), Value (JNum (81 / 100)), Value (JNum (81 / 100)),
                     Value (JNum 5010)],
                    [Value (JNum (81 / 100)), Value (JNum (82 / 100)), Value (JNum (81 / 100)),
                     Value (JNum 5010)],
                    [Value (JNum (81 / 100)), Value (JNum (82 / 100)), Value (JNum (81 / 100)),
                     Value (JNum 5010)]]\<rparr>"
  by (simp add: report_shape reordered_results_def metrics_reordered_def keys_def
      pandas_ordered_def first_seen_def as_it_is_def dict_get_def)

lemma reordered_report_sorting:
  "report_cell pandas_sorting (Parsed reordered_results)
     = Inr \<lparr>index = [''entailment'', ''micro avg'', ''macro avg'', ''weighted avg''],
            columns = [''f1-score'', ''precision'', ''recall'', ''support''],
            data = [[Value (JNum (82 / 100)), Value (JNum (87 / 100)), Value (JNum (76 / 100)),
                     Value (JNum 1670)],
                    [Value (JNum (81 / 100)), Value (JNum (81 / 100)), Value (JNum (81 / 100)),
                     Value (JNum 5010)],
                    [Value (JNum (81 / 100)), Value (JNum (82 / 100)), Value (JNum (81 / 100)),
                     Value (JNum 5010)],
                    [Value (JNum (81 / 100)), Value (JNum (82 / 100)), Value (JNum (81 / 100)),
                     Value (JNum 5010)]]\<rparr>"
  by (simp add: report_shape reordered_results_def metrics_reordered_def keys_def
      pandas_sorting_def sorted_union_def as_it_is_def dict_get_def)

lemma example_well_formed: "well_formed example_results" "well_formed reordered_results"
  by (auto simp: well_formed_def dict_of_dicts_def example_results_def reordered_results_def
      metrics_def metrics_reordered_def keys_def required_keys_def)

theorem report_rows_and_columns_witness:
  "well_formed example_results
   \<and> union_indexes pandas_ordered = first_seen
   \<and> keys (snd (hd example_results)) = [''precision'', ''recall'', ''f1-score'', ''support'']
   \<and> (\<exists>df. report_cell pandas_ordered (Parsed example_results) = Inr df
         \<and> index df = [''entailment'', ''micro avg'', ''macro avg'', ''weighted avg'']
         \<and> columns df = [''precision'', ''recall'', ''f1-score'', ''support'']
         \<and> list_all (\<lambda>k. k \<in> set required_keys) (columns df)
         \<and> data df ! 0 = [Value (JNum (87 / 100)), Value (JNum (76 / 100)),
                           Value (JNum (82 / 100)), Value (JNum 1670)])
   \<and> union_indexes pandas_sorting = sorted_union
   \<and> (\<exists>df. report_cell pandas_sorting (Parsed example_results) = Inr df
         \<and> columns df = [''f1-score'', ''precision'', ''recall'', ''support''])"
proof -
  note w = example_well_formed(1)
  have o: "union_indexes pandas_ordered = first_seen"
    and s: "union_indexes pandas_sorting = sorted_union"
    by (simp_all add: pandas_ordered_def pandas_sorting_def)
  have k: "keys (snd (hd example_results)) = [''precision'', ''recall'', ''f1-score'', ''support'']"
    by (simp add: example_results_def metrics_def keys_def)
  from report_rows_and_columns [OF w, of pandas_ordered] o k obtain df
    where df: "report_cell pandas_ordered (Parsed example_results) = Inr df"
      and c: "columns df = [''precision'', ''recall'', ''f1-score'', ''support'']"
      and i: "index df = keys example_results"
    by blast
  from df have "data df ! 0 = [Value (JNum (87 / 100)), Value (JNum (76 / 100)),
                           Value (JNum (82 / 100)), Value (JNum 1670)]"
    by (auto simp: example_report_ordered)
  moreover from i have "index df = [''entailment'', ''micro avg'', ''macro avg'', ''weighted avg'']"
    by (simp add: example_results_def keys_def)
  moreover from c have "list_all (\<lambda>k. k \<in> set required_keys) (columns df)"
    by (simp add: required_keys_def)
  ultimately have a: "\<exists>df. report_cell pandas_ordered (Parsed example_results) = Inr df
         \<and> index df = [''entailment'', ''micro avg'', ''macro avg'', ''weighted avg'']
         \<and> columns df = [''precision'', ''recall'', ''f1-score'', ''support'']
         \<and> list_all (\<lambda>k. k \<in> set required_keys) (columns df)
         \<and> data df ! 0 = [Value (JNum (87 / 100)), Value (JNum (76 / 100)),
                           Value (JNum (82 / 100)), Value (JNum 1670)]"
    using df c by blast
  from report_rows_and_columns [OF w, of pandas_sorting] s
  have b: "\<exists>df. report_cell pandas_sorting (Parsed example_results) = Inr df
         \<and> columns df = [''f1-score'', ''precision'', ''recall'', ''support'']"
    by blast
  from w o k a s b show ?thesis by blast
qed

text \<open>
  Claim C2 as stated fails on a well-formed document whose records are written with the
  keys in the order f1-score, precision, recall, support: the columns are in that order,
  not in the order precision, recall, f1-score, support, whether pandas sorts the columns
  or keeps them in the order in which the keys are first seen, and the \<^verbatim>\<open>entailment\<close>
  row reads f1-score 0.82 first, then precision 0.87, recall 0.76 and support 1670.
\<close>

theorem report_column_order_counterexample:
  "well_formed reordered_results
   \<and> columns (projr (report_cell pandas_ordered (Parsed reordered_results)))
      = [''f1-score'', ''precision'', ''recall'', ''support'']
   \<and> columns (projr (report_cell pandas_sorting (Parsed reordered_results)))
      = [''f1-score'', ''precision'', ''recall'', ''support'']
   \<and> [''f1-score'', ''precision'', ''recall'', ''support'']
      \<noteq> [''precision'', ''recall'', ''f1-score'', ''support'']
   \<and> data (projr (report_cell pandas_ordered (Parsed reordered_results))) ! 0
      = [Value (JNum (82 / 100)), Value (JNum (87 / 100)), Value (JNum (76 / 100)),
         Value (JNum 1670)]
   \<and> data (projr (report_cell pandas_sorting (Parsed reordered_results))) ! 0
      = [Value (JNum (82 / 100)), Value (JNum (87 / 100)), Value (JNum (76 / 100)),
         Value (JNum 1670)]"
  by (simp add: reordered_report reordered_report_sorting example_well_formed)

end
